theory Spec2Isabelle
  imports Main "HOL-Library.Sublist"
begin

section \<open>Adaptive RAG workflow: a shallow embedding of \<open>src/adaptive_rag.py\<close>\<close>

text \<open>
  The development follows the Python sources \<open>models.py\<close>, \<open>config.py\<close>, \<open>router.py\<close>,
  \<open>graders.py\<close>, \<open>rag_chain.py\<close>, \<open>groq_retrieval.py\<close>, \<open>retrieval.py\<close> and
  \<open>adaptive_rag.py\<close>.  Python exceptions are values of type \<open>exn\<close>, a computation that
  may raise returns \<open>exn + 'a\<close> with \<open>Inl\<close> for the exception.  The language models, the
  vector store and the web search tool are external services: they are fields of the
  record \<open>env\<close>.  Each of them is a function of the number of collaborator calls made so
  far in the execution (the clock), so that the same arguments may be answered
  differently at different times, and each may raise.  Console output (\<open>print\<close>) is not
  modelled.
\<close>

subsection \<open>Python values, exceptions and strings\<close>

datatype exn =
    KeyError string
  | ValueError string
  | AttributeError string
  | TypeError string
  | ValidationError string
  | UnboundLocalError string
  | GraphRecursionError string
  | ServiceError string

text \<open>\<open>str(e)\<close>: a \<open>KeyError\<close> prints the representation of the key, the others their message.\<close>

fun exn_str :: "exn \<Rightarrow> string" where
  "exn_str (KeyError k) = k"
| "exn_str (ValueError m) = m"
| "exn_str (AttributeError m) = m"
| "exn_str (TypeError m) = m"
| "exn_str (ValidationError m) = m"
| "exn_str (UnboundLocalError m) = m"
| "exn_str (GraphRecursionError m) = m"
| "exn_str (ServiceError m) = m"

text \<open>The representation of a string key, as \<open>KeyError\<close> carries it: \<open>'documents'\<close>.\<close>

definition key_repr :: "string \<Rightarrow> string" where
  "key_repr k = [CHR 0x27] @ k @ [CHR 0x27]"

text \<open>\<open>sep.join(xs)\<close> on strings.\<close>

fun join :: "string \<Rightarrow> string list \<Rightarrow> string" where
  "join sep [] = []"
| "join sep [x] = x"
| "join sep (x # y # ys) = x @ sep @ join sep (y # ys)"

definition newline :: string where
  "newline = [CHR 0x0A]"

text \<open>Decimal digits of a natural number, for the index in a \<open>TypeError\<close> message.\<close>

fun str_nat :: "nat \<Rightarrow> string" where
  "str_nat n =
     (if n < 10 then [char_of (48 + n)]
      else str_nat (n div 10) @ [char_of (48 + n mod 10)])"

text \<open>
  What the web search tool may hand back: a string, a list, a dictionary with string
  keys, or any other object, given by the name of its type and its \<open>str()\<close>.
\<close>

datatype pyval =
    PStr string
  | PList "pyval list"
  | PDict "(string \<times> pyval) list"
  | PObj string string

fun type_name :: "pyval \<Rightarrow> string" where
  "type_name (PStr s) = ''str''"
| "type_name (PList xs) = ''list''"
| "type_name (PDict kvs) = ''dict''"
| "type_name (PObj t r) = t"

fun is_dict :: "pyval \<Rightarrow> bool" where
  "is_dict (PDict kvs) = True"
| "is_dict v = False"

subsection \<open>Data model (\<open>models.py\<close>)\<close>

text \<open>\<open>langchain_core.documents.Document\<close>: the text and its metadata.\<close>

record document =
  page_content :: string
  metadata :: "(string \<times> string) list"

text \<open>
  \<open>GraphState\<close> is a \<open>TypedDict\<close>: a key may be absent.  Both entry points build the input
  with the key \<open>question\<close> and no node removes a key, so \<open>question\<close> is always there; the
  other three keys are optional, and \<open>state["k"]\<close> on an absent key raises \<open>KeyError\<close>.
\<close>

record state =
  question :: string
  generation :: "string option"
  documents :: "document list option"
  retry_count :: "int option"

text \<open>The dictionary a node returns: the keys it writes.\<close>

record update =
  u_question :: "string option"
  u_generation :: "string option"
  u_documents :: "document list option"
  u_retry_count :: "int option"

text \<open>\<open>RouteQuery.datasource\<close> is a \<open>Literal["vectorstore", "web_search"]\<close>: pydantic
  refuses any other value when the structured output is built.\<close>

definition RouteQuery :: "string \<Rightarrow> exn + string" where
  "RouteQuery datasource =
     (if datasource = ''vectorstore'' \<or> datasource = ''web_search'' then Inr datasource
      else Inl (ValidationError datasource))"

text \<open>\<open>GradeDocuments\<close>, \<open>GradeHallucinations\<close> and \<open>GradeAnswer\<close> declare
  \<open>binary_score: str\<close>: every string is accepted.\<close>

definition GradeDocuments :: "string \<Rightarrow> exn + string" where
  "GradeDocuments binary_score = Inr binary_score"

definition GradeHallucinations :: "string \<Rightarrow> exn + string" where
  "GradeHallucinations binary_score = Inr binary_score"

definition GradeAnswer :: "string \<Rightarrow> exn + string" where
  "GradeAnswer binary_score = Inr binary_score"

subsection \<open>External services and the log of calls\<close>

datatype call =
    CallRouter string
  | CallRetriever string
  | CallWebSearchTool string
  | CallDocumentGrader string string
  | CallHallucinationGrader string string
  | CallAnswerGrader string string
  | CallRagChain string string

record env =
  groq_api_key :: "string option"
  tavily_api_key :: "string option"
  router_llm :: "nat \<Rightarrow> string \<Rightarrow> exn + string"
  retriever :: "(nat \<Rightarrow> string \<Rightarrow> exn + document list) option"
  web_search_tool :: "nat \<Rightarrow> string \<Rightarrow> exn + pyval"
  document_llm :: "nat \<Rightarrow> string \<Rightarrow> string \<Rightarrow> exn + string"
  hallucination_llm :: "nat \<Rightarrow> string \<Rightarrow> string \<Rightarrow> exn + string"
  answer_llm :: "nat \<Rightarrow> string \<Rightarrow> string \<Rightarrow> exn + string"
  rag_llm :: "nat \<Rightarrow> string \<Rightarrow> string \<Rightarrow> exn + string"
  py_repr :: "pyval \<Rightarrow> string"

text \<open>A computation that calls services: it appends to the log of calls.\<close>

type_synonym 'a io = "call list \<Rightarrow> (exn + 'a) \<times> call list"

text \<open>\<open>str(v)\<close>; the representation of a list or a dictionary is the built-in \<open>py_repr\<close>.\<close>

fun py_str :: "env \<Rightarrow> pyval \<Rightarrow> string" where
  "py_str env (PStr s) = s"
| "py_str env (PObj t r) = r"
| "py_str env v = py_repr env v"

subsection \<open>\<open>config.py\<close>\<close>

definition falsy :: "string option \<Rightarrow> bool" where
  "falsy k = (case k of None \<Rightarrow> True | Some s \<Rightarrow> s = [])"

definition validate :: "env \<Rightarrow> exn + bool" where
  "validate env =
     (if falsy (groq_api_key env)
      then Inl (ValueError ''GROQ_API_KEY environment variable is required'')
      else if falsy (tavily_api_key env)
      then Inl (ValueError ''TAVILY_API_KEY environment variable is required'')
      else Inr True)"

subsection \<open>Collaborators (\<open>router.py\<close>, \<open>graders.py\<close>, \<open>rag_chain.py\<close>, \<open>groq_retrieval.py\<close>)\<close>

definition bind_exn :: "exn + 'a \<Rightarrow> ('a \<Rightarrow> exn + 'b) \<Rightarrow> exn + 'b" where
  "bind_exn r f = (case r of Inl e \<Rightarrow> Inl e | Inr x \<Rightarrow> f x)"

definition question_router_route :: "env \<Rightarrow> string \<Rightarrow> string io" where
  "question_router_route env q cs =
     (bind_exn (router_llm env (length cs) q) RouteQuery, cs @ [CallRouter q])"

definition document_grader_grade :: "env \<Rightarrow> string \<Rightarrow> string \<Rightarrow> string io" where
  "document_grader_grade env q d cs =
     (bind_exn (document_llm env (length cs) q d) GradeDocuments,
      cs @ [CallDocumentGrader q d])"

definition hallucination_grader_grade :: "env \<Rightarrow> string \<Rightarrow> string \<Rightarrow> string io" where
  "hallucination_grader_grade env docs g cs =
     (bind_exn (hallucination_llm env (length cs) docs g) GradeHallucinations,
      cs @ [CallHallucinationGrader docs g])"

definition answer_grader_grade :: "env \<Rightarrow> string \<Rightarrow> string \<Rightarrow> string io" where
  "answer_grader_grade env q g cs =
     (bind_exn (answer_llm env (length cs) q g) GradeAnswer, cs @ [CallAnswerGrader q g])"

definition format_docs :: "document list \<Rightarrow> string" where
  "format_docs docs = join (newline @ newline) (map page_content docs)"

definition rag_chain_generate :: "env \<Rightarrow> string \<Rightarrow> document list \<Rightarrow> string io" where
  "rag_chain_generate env q docs cs =
     (let context = format_docs docs
      in (rag_llm env (length cs) context q, cs @ [CallRagChain context q]))"

definition retriever_retrieve :: "env \<Rightarrow> string \<Rightarrow> document list io" where
  "retriever_retrieve env q cs =
     (case retriever env of
        None \<Rightarrow>
          (Inl (ValueError
             ''Vectorstore not initialized. Call create_vectorstore() or load_vectorstore() first.''),
           cs)
      | Some r \<Rightarrow> (r (length cs) q, cs @ [CallRetriever q]))"

subsection \<open>\<open>WebSearcher.search\<close> (\<open>retrieval.py\<close>)\<close>

text \<open>\<open>d.get("content", d.get("text", str(d)))\<close>; a \<open>d\<close> that is no dictionary has no
  \<open>get\<close>.\<close>

definition get_content :: "env \<Rightarrow> pyval \<Rightarrow> exn + pyval" where
  "get_content env d =
     (case d of
        PDict kvs \<Rightarrow>
          (let dflt = (case map_of kvs ''text'' of Some t \<Rightarrow> t | None \<Rightarrow> PStr (py_str env d))
           in Inr (case map_of kvs ''content'' of Some c \<Rightarrow> c | None \<Rightarrow> dflt))
      | _ \<Rightarrow>
          Inl (AttributeError
                 (key_repr (type_name d) @ '' object has no attribute '' @ key_repr ''get'')))"

text \<open>The list comprehension: the first element that raises ends it.\<close>

fun get_contents :: "env \<Rightarrow> pyval list \<Rightarrow> exn + pyval list" where
  "get_contents env [] = Inr []"
| "get_contents env (d # ds) =
     (case get_content env d of
        Inl e \<Rightarrow> Inl e
      | Inr v \<Rightarrow> (case get_contents env ds of Inl e \<Rightarrow> Inl e | Inr vs \<Rightarrow> Inr (v # vs)))"

text \<open>\<open>"\n".join(items)\<close> on arbitrary values: an item that is no string is a
  \<open>TypeError\<close> naming its index.\<close>

fun join_items :: "nat \<Rightarrow> pyval list \<Rightarrow> exn + string list" where
  "join_items i [] = Inr []"
| "join_items i (v # vs) =
     (case v of
        PStr s \<Rightarrow> (case join_items (Suc i) vs of Inl e \<Rightarrow> Inl e | Inr ss \<Rightarrow> Inr (s # ss))
      | _ \<Rightarrow>
          Inl (TypeError (''sequence item '' @ str_nat i @ '': expected str instance, ''
                            @ type_name v @ '' found'')))"

definition join_values :: "pyval list \<Rightarrow> exn + string" where
  "join_values vs = (case join_items 0 vs of Inl e \<Rightarrow> Inl e | Inr ss \<Rightarrow> Inr (join newline ss))"

text \<open>The body of the \<open>try\<close> block after the tool has answered.\<close>

definition web_results :: "env \<Rightarrow> pyval \<Rightarrow> exn + string" where
  "web_results env docs =
     (case docs of
        PList ds \<Rightarrow>
          (if ds \<noteq> [] \<and> is_dict (hd ds)
           then bind_exn (get_contents env ds) join_values
           else Inr (join newline (map (py_str env) ds)))
      | PStr s \<Rightarrow> Inr s
      | _ \<Rightarrow> Inr (py_str env docs))"

definition Document :: "string \<Rightarrow> document" where
  "Document text = \<lparr>page_content = text, metadata = []\<rparr>"

text \<open>\<open>try: ... except Exception as e: return Document(page_content=f"Web search failed: {e}")\<close>.
  The result type is the one of every Python call, so that "does not raise" is a
  statement and not a type.\<close>

definition web_searcher_search :: "env \<Rightarrow> string \<Rightarrow> document io" where
  "web_searcher_search env q cs =
     (let attempt = bind_exn (web_search_tool env (length cs) q) (web_results env)
      in (case attempt of
            Inr text \<Rightarrow> Inr (Document text)
          | Inl e \<Rightarrow> Inr (Document (''Web search failed: '' @ exn_str e)),
          cs @ [CallWebSearchTool q]))"

subsection \<open>Node functions (\<open>adaptive_rag.py\<close>)\<close>

text \<open>\<open>state["documents"]\<close> and \<open>state["generation"]\<close>.\<close>

definition get_documents :: "state \<Rightarrow> exn + document list" where
  "get_documents s =
     (case documents s of None \<Rightarrow> Inl (KeyError (key_repr ''documents'')) | Some ds \<Rightarrow> Inr ds)"

definition get_generation :: "state \<Rightarrow> exn + string" where
  "get_generation s =
     (case generation s of None \<Rightarrow> Inl (KeyError (key_repr ''generation'')) | Some g \<Rightarrow> Inr g)"

text \<open>\<open>state.get("retry_count", 0)\<close> and \<open>state.get("documents", [])\<close>.\<close>

definition get_retry_count :: "state \<Rightarrow> int" where
  "get_retry_count s = (case retry_count s of None \<Rightarrow> 0 | Some n \<Rightarrow> n)"

definition get_documents_default :: "state \<Rightarrow> document list" where
  "get_documents_default s = (case documents s of None \<Rightarrow> [] | Some ds \<Rightarrow> ds)"

definition retrieve :: "env \<Rightarrow> state \<Rightarrow> update io" where
  "retrieve env s cs =
     (case retriever_retrieve env (question s) cs of
        (Inl e, cs') \<Rightarrow> (Inl e, cs')
      | (Inr docs, cs') \<Rightarrow>
          (Inr \<lparr>u_question = Some (question s), u_generation = None,
                u_documents = Some docs, u_retry_count = None\<rparr>, cs'))"

text \<open>The loop of \<open>_grade_documents\<close>, with \<open>filtered_docs\<close> as accumulator.\<close>

fun grade_loop :: "env \<Rightarrow> string \<Rightarrow> document list \<Rightarrow> document list \<Rightarrow> document list io" where
  "grade_loop env q [] filtered_docs cs = (Inr filtered_docs, cs)"
| "grade_loop env q (doc # rest) filtered_docs cs =
     (case document_grader_grade env q (page_content doc) cs of
        (Inl e, cs') \<Rightarrow> (Inl e, cs')
      | (Inr score, cs') \<Rightarrow>
          grade_loop env q rest
            (if score = ''yes'' then filtered_docs @ [doc] else filtered_docs) cs')"

definition grade_documents :: "env \<Rightarrow> state \<Rightarrow> update io" where
  "grade_documents env s cs =
     (case get_documents s of
        Inl e \<Rightarrow> (Inl e, cs)
      | Inr docs \<Rightarrow>
          (case grade_loop env (question s) docs [] cs of
             (Inl e, cs') \<Rightarrow> (Inl e, cs')
           | (Inr filtered_docs, cs') \<Rightarrow>
               (Inr \<lparr>u_question = Some (question s), u_generation = None,
                     u_documents = Some filtered_docs, u_retry_count = None\<rparr>, cs')))"

definition generate :: "env \<Rightarrow> state \<Rightarrow> update io" where
  "generate env s cs =
     (case get_documents s of
        Inl e \<Rightarrow> (Inl e, cs)
      | Inr docs \<Rightarrow>
          (case rag_chain_generate env (question s) docs cs of
             (Inl e, cs') \<Rightarrow> (Inl e, cs')
           | (Inr g, cs') \<Rightarrow>
               (Inr \<lparr>u_question = Some (question s), u_generation = Some g,
                     u_documents = Some docs, u_retry_count = None\<rparr>, cs')))"

definition web_search :: "env \<Rightarrow> state \<Rightarrow> update io" where
  "web_search env s cs =
     (case web_searcher_search env (question s) cs of
        (Inl e, cs') \<Rightarrow> (Inl e, cs')
      | (Inr doc, cs') \<Rightarrow>
          (Inr \<lparr>u_question = Some (question s), u_generation = None,
                u_documents = Some [doc], u_retry_count = None\<rparr>, cs'))"

text \<open>The f-string of \<open>_transform_query\<close>.\<close>

definition transformed_question :: "string \<Rightarrow> string" where
  "transformed_question q = ''Please provide more details about: '' @ q"

text \<open>The transformed question is computed and not used ("For now, just return the same
  question"): the dictionary returned holds \<open>question\<close> itself.\<close>

definition transform_query :: "env \<Rightarrow> state \<Rightarrow> update io" where
  "transform_query env s cs =
     (let question' = question s;
          retry_count' = get_retry_count s + 1;
          transformed_question' = transformed_question question'
      in (Inr \<lparr>u_question = Some question', u_generation = None,
               u_documents = Some (get_documents_default s),
               u_retry_count = Some retry_count'\<rparr>, cs))"

subsection \<open>Branch predicates\<close>

text \<open>\<open>_route_question\<close> has no \<open>else\<close>: on any other source it returns \<open>None\<close>.\<close>

definition route_question :: "env \<Rightarrow> state \<Rightarrow> string option io" where
  "route_question env s cs =
     (case question_router_route env (question s) cs of
        (Inl e, cs') \<Rightarrow> (Inl e, cs')
      | (Inr source, cs') \<Rightarrow>
          (Inr (if source = ''web_search'' then Some ''web_search''
                else if source = ''vectorstore'' then Some ''vectorstore''
                else None), cs'))"

definition decide_to_generate :: "state \<Rightarrow> exn + string" where
  "decide_to_generate s =
     (case get_documents s of
        Inl e \<Rightarrow> Inl e
      | Inr filtered_documents \<Rightarrow>
          Inr (if filtered_documents = [] then ''transform_query'' else ''generate''))"

definition grade_generation_v_documents_and_question :: "env \<Rightarrow> state \<Rightarrow> string io" where
  "grade_generation_v_documents_and_question env s cs =
     (case get_documents s of
        Inl e \<Rightarrow> (Inl e, cs)
      | Inr docs \<Rightarrow>
     (case get_generation s of
        Inl e \<Rightarrow> (Inl e, cs)
      | Inr g \<Rightarrow>
     (let docs_text = join newline (map page_content docs) in
      case hallucination_grader_grade env docs_text g cs of
        (Inl e, cs') \<Rightarrow> (Inl e, cs')
      | (Inr score, cs') \<Rightarrow>
     (let retry_count' = get_retry_count s in
      if score = ''yes'' then
        (case answer_grader_grade env (question s) g cs' of
           (Inl e, cs'') \<Rightarrow> (Inl e, cs'')
         | (Inr score', cs'') \<Rightarrow>
             (if score' = ''yes'' then (Inr ''useful'', cs'')
              else if retry_count' \<ge> 3 then (Inr ''useful'', cs'')
              else (Inr ''not useful'', cs'')))
      else (Inr ''not supported'', cs')))))"

subsection \<open>The compiled graph (\<open>_build_graph\<close>)\<close>

text \<open>The five nodes; \<open>GradeDocs\<close> is the node \<open>grade_documents\<close>.\<close>

datatype node = WebSearch | Retrieve | GradeDocs | Generate | TransformQuery

datatype target = Node node | END

fun node_name :: "node \<Rightarrow> string" where
  "node_name WebSearch = ''web_search''"
| "node_name Retrieve = ''retrieve''"
| "node_name GradeDocs = ''grade_documents''"
| "node_name Generate = ''generate''"
| "node_name TransformQuery = ''transform_query''"

text \<open>\<open>add_node\<close>: the function behind each name.\<close>

fun node_fn :: "env \<Rightarrow> node \<Rightarrow> state \<Rightarrow> update io" where
  "node_fn env WebSearch = web_search env"
| "node_fn env Retrieve = retrieve env"
| "node_fn env GradeDocs = grade_documents env"
| "node_fn env Generate = generate env"
| "node_fn env TransformQuery = transform_query env"

text \<open>The three path maps of \<open>add_conditional_edges\<close>.\<close>

definition start_edges :: "(string \<times> target) list" where
  "start_edges = [(''web_search'', Node WebSearch), (''vectorstore'', Node Retrieve)]"

definition grade_documents_edges :: "(string \<times> target) list" where
  "grade_documents_edges =
     [(''transform_query'', Node TransformQuery), (''generate'', Node Generate)]"

definition generate_edges :: "(string \<times> target) list" where
  "generate_edges =
     [(''not supported'', Node Generate), (''useful'', END), (''not useful'', Node TransformQuery)]"

text \<open>
  LangGraph looks the label a branch function returns up in the path map
  (\<open>self.ends[r]\<close>): a label that is no key, \<open>None\<close> among them, raises \<open>KeyError\<close>.
\<close>

definition conditional_edge :: "(string \<times> target) list \<Rightarrow> string option \<Rightarrow> exn + target" where
  "conditional_edge path_map r =
     (case r of
        None \<Rightarrow> Inl (KeyError ''None'')
      | Some label \<Rightarrow>
          (case map_of path_map label of
             None \<Rightarrow> Inl (KeyError (key_repr label))
           | Some t \<Rightarrow> Inr t))"

text \<open>The edge taken after a node, on the state that holds the node's writes.\<close>

fun next_node :: "env \<Rightarrow> node \<Rightarrow> state \<Rightarrow> target io" where
  "next_node env WebSearch s cs = (Inr (Node Generate), cs)"
| "next_node env Retrieve s cs = (Inr (Node GradeDocs), cs)"
| "next_node env GradeDocs s cs =
     (bind_exn (decide_to_generate s) (\<lambda>l. conditional_edge grade_documents_edges (Some l)), cs)"
| "next_node env TransformQuery s cs = (Inr (Node Generate), cs)"
| "next_node env Generate s cs =
     (case grade_generation_v_documents_and_question env s cs of
        (Inl e, cs') \<Rightarrow> (Inl e, cs')
      | (Inr l, cs') \<Rightarrow> (conditional_edge generate_edges (Some l), cs'))"

text \<open>The state channels take the last value written to each key.\<close>

definition apply_update :: "state \<Rightarrow> update \<Rightarrow> state" where
  "apply_update s u =
     \<lparr>question = (case u_question u of None \<Rightarrow> question s | Some q \<Rightarrow> q),
      generation = (case u_generation u of None \<Rightarrow> generation s | Some g \<Rightarrow> Some g),
      documents = (case u_documents u of None \<Rightarrow> documents s | Some ds \<Rightarrow> Some ds),
      retry_count = (case u_retry_count u of None \<Rightarrow> retry_count s | Some n \<Rightarrow> Some n)\<rparr>"

text \<open>
  What an execution leaves behind: the log of collaborator calls, the nodes entered, in
  order, and the events streamed, one per node that returned (its name and what it wrote).
\<close>

record world =
  calls :: "call list"
  started :: "node list"
  events :: "(node \<times> update) list"

text \<open>
  The executor runs node after node until an edge leads to \<open>END\<close>.  LangGraph bounds the
  number of steps of an execution by its \<open>recursion_limit\<close> and raises
  \<open>GraphRecursionError\<close> at the bound; the bound is the parameter \<open>limit\<close>, counted in
  node executions.
\<close>

fun run_nodes :: "env \<Rightarrow> nat \<Rightarrow> node \<Rightarrow> state \<Rightarrow> world \<Rightarrow> (exn + state) \<times> world" where
  "run_nodes env 0 n s w = (Inl (GraphRecursionError ''Recursion limit reached''), w)"
| "run_nodes env (Suc limit) n s w =
     (let w1 = w\<lparr>started := started w @ [n]\<rparr> in
      case node_fn env n s (calls w1) of
        (Inl e, cs) \<Rightarrow> (Inl e, w1\<lparr>calls := cs\<rparr>)
      | (Inr u, cs) \<Rightarrow>
          (let s' = apply_update s u;
               w2 = w1\<lparr>calls := cs, events := events w1 @ [(n, u)]\<rparr>
           in case next_node env n s' cs of
                (Inl e, cs') \<Rightarrow> (Inl e, w2\<lparr>calls := cs'\<rparr>)
              | (Inr END, cs') \<Rightarrow> (Inr s', w2\<lparr>calls := cs'\<rparr>)
              | (Inr (Node m), cs') \<Rightarrow> run_nodes env limit m s' (w2\<lparr>calls := cs'\<rparr>)))"

definition world0 :: world where
  "world0 = \<lparr>calls = [], started = [], events = []\<rparr>"

text \<open>The conditional edge at \<open>START\<close>: \<open>_route_question\<close>, then its path map.\<close>

definition start_branch :: "env \<Rightarrow> state \<Rightarrow> target io" where
  "start_branch env s cs =
     (case route_question env s cs of
        (Inl e, cs') \<Rightarrow> (Inl e, cs')
      | (Inr l, cs') \<Rightarrow> (conditional_edge start_edges l, cs'))"

text \<open>\<open>self.app.invoke(inputs)\<close>: the branch at \<open>START\<close>, then the nodes.\<close>

definition invoke :: "env \<Rightarrow> nat \<Rightarrow> state \<Rightarrow> (exn + state) \<times> world" where
  "invoke env limit inputs =
     (case start_branch env inputs (calls world0) of
        (Inl e, cs) \<Rightarrow> (Inl e, world0\<lparr>calls := cs\<rparr>)
      | (Inr END, cs) \<Rightarrow> (Inr inputs, world0\<lparr>calls := cs\<rparr>)
      | (Inr (Node n), cs) \<Rightarrow> run_nodes env limit n inputs (world0\<lparr>calls := cs\<rparr>))"

text \<open>The state after a sequence of streamed events.\<close>

definition replay :: "state \<Rightarrow> (node \<times> update) list \<Rightarrow> state" where
  "replay s es = foldl apply_update s (map snd es)"

text \<open>The state after one execution of \<open>transform_query\<close>.\<close>

definition after_transform_query :: "env \<Rightarrow> state \<Rightarrow> state" where
  "after_transform_query env s =
     (case fst (transform_query env s []) of Inl e \<Rightarrow> s | Inr u \<Rightarrow> apply_update s u)"

subsection \<open>Entry points\<close>

definition no_answer :: string where
  "no_answer = ''No answer generated''"

text \<open>\<open>query\<close> streams the execution and reads \<open>generation\<close> in the last event's value;
  with no event the variable \<open>value\<close> is unbound.\<close>

definition query_inputs :: "string \<Rightarrow> state" where
  "query_inputs q = \<lparr>question = q, generation = None, documents = None, retry_count = Some 0\<rparr>"

definition query :: "env \<Rightarrow> nat \<Rightarrow> string \<Rightarrow> exn + string" where
  "query env limit q =
     (case validate env of
        Inl e \<Rightarrow> Inl e
      | Inr ok \<Rightarrow>
          (case invoke env limit (query_inputs q) of
             (Inl e, w) \<Rightarrow> Inl e
           | (Inr s, w) \<Rightarrow>
               (if events w = []
                then Inl (UnboundLocalError ''value'')
                else Inr (case u_generation (snd (last (events w))) of
                            None \<Rightarrow> no_answer | Some g \<Rightarrow> g))))"

text \<open>\<open>query_simple\<close> reads \<open>generation\<close> in the final state.\<close>

definition query_simple_inputs :: "string \<Rightarrow> state" where
  "query_simple_inputs q = \<lparr>question = q, generation = None, documents = None, retry_count = None\<rparr>"

definition query_simple :: "env \<Rightarrow> nat \<Rightarrow> string \<Rightarrow> exn + string" where
  "query_simple env limit q =
     (case validate env of
        Inl e \<Rightarrow> Inl e
      | Inr ok \<Rightarrow>
          (case invoke env limit (query_simple_inputs q) of
             (Inl e, w) \<Rightarrow> Inl e
           | (Inr s, w) \<Rightarrow> Inr (case generation s of None \<Rightarrow> no_answer | Some g \<Rightarrow> g)))"

subsection \<open>A scripted environment for concrete executions\<close>

text \<open>
  Two passages, a retriever that returns both, a web search tool that fails, and language
  models that give the same four answers at every call.
\<close>

definition doc_a :: document where "doc_a = Document ''alpha''"
definition doc_b :: document where "doc_b = Document ''beta''"

definition scripted_env :: "string \<Rightarrow> string \<Rightarrow> string \<Rightarrow> string \<Rightarrow> env" where
  "scripted_env source relevant grounded adequate =
     \<lparr>groq_api_key = Some ''gsk'', tavily_api_key = Some ''tvly'',
      router_llm = (\<lambda>t q. Inr source),
      retriever = Some (\<lambda>t q. Inr [doc_a, doc_b]),
      web_search_tool = (\<lambda>t q. Inl (ServiceError ''timeout'')),
      document_llm = (\<lambda>t q d. Inr relevant),
      hallucination_llm = (\<lambda>t d g. Inr grounded),
      answer_llm = (\<lambda>t q g. Inr adequate),
      rag_llm = (\<lambda>t c q. Inr ''an answer''),
      py_repr = (\<lambda>v. ''<repr>'')\<rparr>"

definition demo_state :: "int option \<Rightarrow> state" where
  "demo_state rc = \<lparr>question = ''why'', generation = Some ''an answer'',
      documents = Some [doc_a, doc_b], retry_count = rc\<rparr>"

subsection \<open>Passages kept under a list of verdicts, and an environment that plays one\<close>

text \<open>
  \<open>kept docs verdicts\<close> are the passages whose verdict, at the same position, is \<open>yes\<close>.
  \<open>verdict_env vs\<close> answers the \<open>t\<close>-th collaborator call to the relevance grader with
  \<open>vs ! t\<close>.
\<close>

definition kept :: "document list \<Rightarrow> string list \<Rightarrow> document list" where
  "kept docs verdicts = map fst (filter (\<lambda>(d, v). v = ''yes'') (zip docs verdicts))"

definition verdict_env :: "string list \<Rightarrow> env" where
  "verdict_env vs = (scripted_env ''vectorstore'' ''no'' ''yes'' ''yes'')
     \<lparr>document_llm := (\<lambda>t q d. if t < length vs then Inr (vs ! t) else Inr ''no'')\<rparr>"

definition doc_c :: document where "doc_c = Document ''gamma''"

definition three_docs :: state where
  "three_docs = \<lparr>question = ''why'', generation = None,
      documents = Some [doc_a, doc_b, doc_c], retry_count = None\<rparr>"

subsection \<open>A web search tool that returns a list of mixed items\<close>

text \<open>The first item is a dictionary, the second a string: the list comprehension of
  \<open>WebSearcher.search\<close> raises \<open>AttributeError\<close> inside the \<open>try\<close> block.\<close>

definition mixed_results_env :: env where
  "mixed_results_env = (scripted_env ''web_search'' ''yes'' ''yes'' ''yes'')
     \<lparr>web_search_tool :=
        (\<lambda>t q. Inr (PList [PDict [(''content'', PStr ''first'')], PStr ''second'']))\<rparr>"





subsection \<open>A state with the key \<open>retry_count\<close> filled in\<close>

text \<open>The same state, with \<open>retry_count\<close> set to the value the code reads from it.\<close>

definition retry_count_defaulted :: "state \<Rightarrow> state" where
  "retry_count_defaulted s = s\<lparr>retry_count := Some (get_retry_count s)\<rparr>"

section \<open>Unfolding the collaborators\<close>

lemmas collab_defs = hallucination_grader_grade_def answer_grader_grade_def
  document_grader_grade_def question_router_route_def bind_exn_def
  GradeHallucinations_def GradeAnswer_def GradeDocuments_def RouteQuery_def

section \<open>Properties\<close>

subsection \<open>C1: the retry ceiling\<close>

text \<open>
  C1.  When the branch predicate after \<open>generate\<close> runs on a state whose answer the
  groundedness grader accepts (\<open>yes\<close>) and the adequacy grader refuses (\<open>no\<close>), and
  \<open>retry_count\<close> is at least 3, it returns \<open>useful\<close> after consulting both graders, and
  the edge taken leads to \<open>END\<close>, not to \<open>transform_query\<close>.
\<close>

theorem retry_ceiling_forces_done:
  assumes "documents s = Some docs" and "generation s = Some g"
    and "hallucination_llm env (length cs) (join newline (map page_content docs)) g = Inr ''yes''"
    and "answer_llm env (Suc (length cs)) (question s) g = Inr ''no''"
    and "get_retry_count s \<ge> 3"
  shows "grade_generation_v_documents_and_question env s cs =
           (Inr ''useful'',
            cs @ [CallHallucinationGrader (join newline (map page_content docs)) g,
                  CallAnswerGrader (question s) g])
       \<and> fst (next_node env Generate s cs) = Inr END
       \<and> fst (next_node env Generate s cs) \<noteq> Inr (Node TransformQuery)"
proof -
  have g: "grade_generation_v_documents_and_question env s cs =
           (Inr ''useful'',
            cs @ [CallHallucinationGrader (join newline (map page_content docs)) g,
                  CallAnswerGrader (question s) g])"
    using assms
    by (simp add: grade_generation_v_documents_and_question_def get_documents_def
        get_generation_def collab_defs)
  have "fst (next_node env Generate s cs) = Inr END"
    by (simp add: g conditional_edge_def generate_edges_def)
  with g show ?thesis by simp
qed

theorem retry_ceiling_forces_done_witness:
  "grade_generation_v_documents_and_question (scripted_env ''vectorstore'' ''yes'' ''yes'' ''no'')
       (demo_state (Some 3)) [] =
     (Inr ''useful'',
      [] @ [CallHallucinationGrader (join newline (map page_content [doc_a, doc_b])) ''an answer'',
       CallAnswerGrader (question (demo_state (Some 3))) ''an answer''])
   \<and> fst (next_node (scripted_env ''vectorstore'' ''yes'' ''yes'' ''no'') Generate
             (demo_state (Some 3)) []) = Inr END
   \<and> fst (next_node (scripted_env ''vectorstore'' ''yes'' ''yes'' ''no'') Generate
             (demo_state (Some 3)) []) \<noteq> Inr (Node TransformQuery)"
proof -
  let ?env = "scripted_env ''vectorstore'' ''yes'' ''yes'' ''no''"
  let ?s = "demo_state (Some 3)"
  have h1: "documents ?s = Some [doc_a, doc_b]" by (simp add: demo_state_def)
  have h2: "generation ?s = Some ''an answer''" by (simp add: demo_state_def)
  have h3: "hallucination_llm ?env (length ([]::call list))
              (join newline (map page_content [doc_a, doc_b])) ''an answer'' = Inr ''yes''"
    by (simp add: scripted_env_def)
  have h4: "answer_llm ?env (Suc (length ([]::call list))) (question ?s) ''an answer'' = Inr ''no''"
    by (simp add: scripted_env_def)
  have h5: "get_retry_count ?s \<ge> 3" by (simp add: demo_state_def get_retry_count_def)
  from retry_ceiling_forces_done [OF h1 h2 h3 h4 h5] show ?thesis .
qed

subsection \<open>C2: what \<open>transform_query\<close> writes\<close>

text \<open>
  C2 as stated, that \<open>transform_query\<close> rewrites the question to the more detailed variant,
  fails on the state with question \<open>why\<close>: the node writes \<open>why\<close> back, not
  \<open>Please provide more details about: why\<close>.
\<close>

theorem transform_query_question_counterexample:
  "fst (transform_query (scripted_env ''vectorstore'' ''no'' ''yes'' ''no'') (demo_state None) [])
     = Inr \<lparr>u_question = Some ''why'', u_generation = None,
            u_documents = Some [doc_a, doc_b], u_retry_count = Some 1\<rparr>
   \<and> question (after_transform_query (scripted_env ''vectorstore'' ''no'' ''yes'' ''no'')
        (demo_state None)) = ''why''
   \<and> question (after_transform_query (scripted_env ''vectorstore'' ''no'' ''yes'' ''no'')
        (demo_state None)) \<noteq> transformed_question (question (demo_state None))"
  by (simp add: transform_query_def after_transform_query_def apply_update_def demo_state_def
      get_retry_count_def get_documents_default_def transformed_question_def)

lemma after_transform_query_eq:
  "after_transform_query env s =
     s\<lparr>documents := Some (get_documents_default s),
       retry_count := Some (get_retry_count s + 1)\<rparr>"
  by (simp add: after_transform_query_def transform_query_def apply_update_def)

lemma after_transform_query_pow:
  "question ((after_transform_query env ^^ n) s) = question s
   \<and> get_retry_count ((after_transform_query env ^^ n) s) = get_retry_count s + int n
   \<and> get_documents_default ((after_transform_query env ^^ n) s) = get_documents_default s"
  by (induction n)
     (simp_all add: after_transform_query_eq get_retry_count_def get_documents_default_def)

text \<open>
  C2, as the code has it.  For every state, \<open>transform_query\<close> returns the question it
  read (the more detailed variant is computed and dropped, so nothing compounds however
  often the node runs), the documents of the state (the empty list when the state has
  none) and \<open>retry_count\<close> plus one; it calls no collaborator.
\<close>

theorem transform_query_keeps_question:
  "transform_query env s cs =
     (Inr \<lparr>u_question = Some (question s), u_generation = None,
           u_documents = Some (get_documents_default s),
           u_retry_count = Some (get_retry_count s + 1)\<rparr>, cs)
   \<and> question (after_transform_query env s) = question s
   \<and> documents (after_transform_query env s) = Some (get_documents_default s)
   \<and> question ((after_transform_query env ^^ n) s) = question s
   \<and> get_documents_default ((after_transform_query env ^^ n) s) = get_documents_default s"
  using after_transform_query_pow [where env = env and n = n and s = s]
  by (simp add: transform_query_def after_transform_query_eq)

subsection \<open>C3: the edge "not supported"\<close>

lemma not_yes_is_not_supported:
  assumes "documents s = Some docs" and "generation s = Some g"
    and "hallucination_llm env (length cs) (join newline (map page_content docs)) g = Inr v"
    and "v \<noteq> ''yes''"
  shows "grade_generation_v_documents_and_question env s cs =
           (Inr ''not supported'',
            cs @ [CallHallucinationGrader (join newline (map page_content docs)) g])"
  using assms
  by (simp add: grade_generation_v_documents_and_question_def get_documents_def
      get_generation_def collab_defs)

lemma generate_edge_not_supported:
  "conditional_edge generate_edges (Some ''not supported'') = Inr (Node Generate)"
  by (simp add: conditional_edge_def generate_edges_def)

lemma generate_writes:
  assumes "generate env s cs = (Inr u, cs')"
  shows "u_retry_count u = None \<and> u_documents u = documents s \<and> u_generation u \<noteq> None
         \<and> u_question u = Some (question s)"
  using assms
  by (auto simp: generate_def get_documents_def rag_chain_generate_def Let_def
      split: option.splits sum.splits)

lemma regenerate_loop:
  assumes hall: "\<And>t d g. \<exists>v. hallucination_llm env t d g = Inr v \<and> v \<noteq> ''yes''"
    and rag: "\<And>t c q. \<exists>a. rag_llm env t c q = Inr a"
  shows "documents s = Some docs \<Longrightarrow>
         fst (run_nodes env n Generate s w) = Inl (GraphRecursionError ''Recursion limit reached'')
       \<and> started (snd (run_nodes env n Generate s w)) = started w @ replicate n Generate
       \<and> map fst (events (snd (run_nodes env n Generate s w)))
           = map fst (events w) @ replicate n Generate
       \<and> map (u_retry_count \<circ> snd) (events (snd (run_nodes env n Generate s w)))
           = map (u_retry_count \<circ> snd) (events w) @ replicate n None"
proof (induction n arbitrary: s w)
  case 0
  then show ?case by simp
next
  case (Suc n)
  obtain a where a: "rag_llm env (length (calls w)) (format_docs docs) (question s) = Inr a"
    using rag by blast
  let ?u = "\<lparr>u_question = Some (question s), u_generation = Some a,
              u_documents = Some docs, u_retry_count = None\<rparr>"
  let ?cs = "calls w @ [CallRagChain (format_docs docs) (question s)]"
  have gen: "generate env s (calls w) = (Inr ?u, ?cs)"
    using Suc.prems a by (simp add: generate_def get_documents_def rag_chain_generate_def)
  let ?s = "apply_update s ?u"
  have sd: "documents ?s = Some docs" and sg: "generation ?s = Some a"
    by (simp_all add: apply_update_def)
  obtain v where v: "hallucination_llm env (length ?cs) (join newline (map page_content docs)) a = Inr v"
    and vn: "v \<noteq> ''yes''"
    using hall by blast
  have nx: "next_node env Generate ?s ?cs =
        (Inr (Node Generate), ?cs @ [CallHallucinationGrader (join newline (map page_content docs)) a])"
    using not_yes_is_not_supported [OF sd sg v vn] generate_edge_not_supported by simp
  let ?w = "w\<lparr>started := started w @ [Generate], events := events w @ [(Generate, ?u)],
       calls := ?cs @ [CallHallucinationGrader (join newline (map page_content docs)) a]\<rparr>"
  have step: "run_nodes env (Suc n) Generate s w = run_nodes env n Generate ?s ?w"
    using gen nx by (simp add: Let_def)
  show ?case
    unfolding step using Suc.IH [OF sd, of ?w] by (simp add: replicate_app_Cons_same)
qed

text \<open>
  C3.  On a state whose answer the groundedness grader refuses (\<open>no\<close>), the branch
  predicate after \<open>generate\<close> returns \<open>not supported\<close> having called the groundedness
  grader only (the adequacy grader is not consulted), whatever \<open>retry_count\<close> is; the edge
  leads back to \<open>generate\<close>, and \<open>generate\<close> does not write \<open>retry_count\<close>.  Nothing in
  the graph bounds the loop: with a grader that never accepts, \<open>generate\<close> runs as often
  as the executor's limit allows, for every limit and every \<open>retry_count\<close>, and no event
  writes \<open>retry_count\<close>.
\<close>

theorem not_grounded_regenerates:
  assumes "documents s = Some docs" and "generation s = Some g"
    and "hallucination_llm env (length cs) (join newline (map page_content docs)) g = Inr ''no''"
  shows "grade_generation_v_documents_and_question env s cs =
           (Inr ''not supported'',
            cs @ [CallHallucinationGrader (join newline (map page_content docs)) g])
       \<and> next_node env Generate s cs =
           (Inr (Node Generate),
            cs @ [CallHallucinationGrader (join newline (map page_content docs)) g])
       \<and> (case fst (generate env s cs1) of
             Inl e \<Rightarrow> True
           | Inr u \<Rightarrow> u_retry_count u = None \<and> retry_count (apply_update s u) = retry_count s)
       \<and> fst (run_nodes (scripted_env src rel ''no'' ad) n Generate (demo_state rc) world0)
           = Inl (GraphRecursionError ''Recursion limit reached'')
       \<and> started (snd (run_nodes (scripted_env src rel ''no'' ad) n Generate (demo_state rc) world0))
           = replicate n Generate
       \<and> map (u_retry_count \<circ> snd)
            (events (snd (run_nodes (scripted_env src rel ''no'' ad) n Generate (demo_state rc) world0)))
           = replicate n None"
proof -
  have ns: "''no'' \<noteq> ''yes''" by simp
  note g = not_yes_is_not_supported [OF assms ns]
  have nx: "next_node env Generate s cs =
           (Inr (Node Generate),
            cs @ [CallHallucinationGrader (join newline (map page_content docs)) g])"
    by (simp add: g generate_edge_not_supported)
  have wr: "case fst (generate env s cs1) of
             Inl e \<Rightarrow> True
           | Inr u \<Rightarrow> u_retry_count u = None \<and> retry_count (apply_update s u) = retry_count s"
    using generate_writes [of env s cs1]
    by (cases "generate env s cs1") (auto simp: apply_update_def split: sum.splits)
  have d: "documents (demo_state rc) = Some [doc_a, doc_b]" by (simp add: demo_state_def)
  have loop: "fst (run_nodes (scripted_env src rel ''no'' ad) n Generate (demo_state rc) world0)
           = Inl (GraphRecursionError ''Recursion limit reached'')
       \<and> started (snd (run_nodes (scripted_env src rel ''no'' ad) n Generate (demo_state rc) world0))
           = started world0 @ replicate n Generate
       \<and> map fst (events (snd (run_nodes (scripted_env src rel ''no'' ad) n Generate (demo_state rc) world0)))
           = map fst (events world0) @ replicate n Generate
       \<and> map (u_retry_count \<circ> snd)
            (events (snd (run_nodes (scripted_env src rel ''no'' ad) n Generate (demo_state rc) world0)))
           = map (u_retry_count \<circ> snd) (events world0) @ replicate n None"
    by (rule regenerate_loop [OF _ _ d]) (simp_all add: scripted_env_def)
  show ?thesis using g nx wr loop by (simp add: world0_def)
qed


theorem not_grounded_regenerates_witness:
  "grade_generation_v_documents_and_question (scripted_env ''web_search'' ''yes'' ''no'' ''yes'')
       (demo_state (Some 5)) [] =
     (Inr ''not supported'',
      [] @ [CallHallucinationGrader (join newline (map page_content [doc_a, doc_b])) ''an answer''])
   \<and> next_node (scripted_env ''web_search'' ''yes'' ''no'' ''yes'') Generate (demo_state (Some 5)) [] =
     (Inr (Node Generate),
      [] @ [CallHallucinationGrader (join newline (map page_content [doc_a, doc_b])) ''an answer''])
   \<and> started (snd (run_nodes (scripted_env ''web_search'' ''yes'' ''no'' ''yes'') 7 Generate
         (demo_state (Some 5)) world0)) = replicate 7 Generate"
proof -
  let ?env = "scripted_env ''web_search'' ''yes'' ''no'' ''yes''"
  let ?s = "demo_state (Some 5)"
  have h1: "documents ?s = Some [doc_a, doc_b]" by (simp add: demo_state_def)
  have h2: "generation ?s = Some ''an answer''" by (simp add: demo_state_def)
  have h3: "hallucination_llm ?env (length ([]::call list))
              (join newline (map page_content [doc_a, doc_b])) ''an answer'' = Inr ''no''"
    by (simp add: scripted_env_def)
  from not_grounded_regenerates [OF h1 h2 h3, where src = "''web_search''" and rel = "''yes''"
      and ad = "''yes''" and n = 7 and rc = "Some 5"]
  show ?thesis by blast
qed

subsection \<open>C5: \<open>grade_documents\<close> filters in order\<close>

lemma kept_Cons:
  "kept (d # docs) (v # vs) = (if v = ''yes'' then d # kept docs vs else kept docs vs)"
  by (simp add: kept_def)

lemma kept_subseq: "subseq (kept docs vs) docs"
proof (induction docs arbitrary: vs)
  case Nil
  then show ?case by (simp add: kept_def)
next
  case (Cons d docs)
  show ?case
  proof (cases vs)
    case Nil
    then show ?thesis by (simp add: kept_def)
  next
    case (Cons v vs')
    with Cons.IH [of vs'] show ?thesis by (auto simp: kept_Cons)
  qed
qed

lemma grade_loop_kept:
  assumes "length vs = length docs"
    and "\<And>i. i < length docs \<Longrightarrow>
           document_llm env (length cs + i) q (page_content (docs ! i)) = Inr (vs ! i)"
  shows "grade_loop env q docs acc cs =
           (Inr (acc @ kept docs vs), cs @ map (\<lambda>d. CallDocumentGrader q (page_content d)) docs)"
  using assms
proof (induction docs arbitrary: vs acc cs)
  case Nil
  then show ?case by (simp add: kept_def)
next
  case (Cons d docs)
  from Cons.prems(1) obtain v vs' where vs: "vs = v # vs'" and len: "length vs' = length docs"
    by (cases vs) auto
  have v: "document_llm env (length cs) q (page_content d) = Inr v"
    using Cons.prems(2) [of 0] vs by simp
  let ?cs = "cs @ [CallDocumentGrader q (page_content d)]"
  have rest: "\<And>i. i < length docs \<Longrightarrow>
           document_llm env (length ?cs + i) q (page_content (docs ! i)) = Inr (vs' ! i)"
    using Cons.prems(2) [of "Suc i" for i] vs by simp
  have g: "document_grader_grade env q (page_content d) cs = (Inr v, ?cs)"
    by (simp add: document_grader_grade_def bind_exn_def GradeDocuments_def v)
  show ?case
    using Cons.IH [OF len rest] by (simp add: g vs kept_Cons)
qed

text \<open>
  C5.  Let the relevance grader answer the passages of the state, in their order, with
  the verdicts \<open>verdicts\<close>.  Then \<open>grade_documents\<close> grades each passage once, in order,
  and writes exactly the passages whose verdict is \<open>yes\<close>, in their original order: a
  subsequence of the input.  It is a result, not an error, also when it is empty.
\<close>

theorem grade_documents_keeps_relevant_in_order:
  assumes "documents s = Some docs" and "length verdicts = length docs"
    and "\<And>i. i < length docs \<Longrightarrow>
           document_llm env (length cs + i) (question s) (page_content (docs ! i))
             = Inr (verdicts ! i)"
  shows "grade_documents env s cs =
           (Inr \<lparr>u_question = Some (question s), u_generation = None,
                 u_documents = Some (map fst (filter (\<lambda>(d, v). v = ''yes'') (zip docs verdicts))),
                 u_retry_count = None\<rparr>,
            cs @ map (\<lambda>d. CallDocumentGrader (question s) (page_content d)) docs)
       \<and> subseq (map fst (filter (\<lambda>(d, v). v = ''yes'') (zip docs verdicts))) docs"
  using grade_loop_kept [OF assms(2,3), of "[]"] kept_subseq [of docs verdicts] assms(1)
  by (simp add: grade_documents_def get_documents_def kept_def)

theorem grade_documents_keeps_relevant_in_order_witness:
  "grade_documents (verdict_env [''yes'', ''no'', ''yes'']) three_docs [] =
     (Inr \<lparr>u_question = Some ''why'', u_generation = None,
           u_documents = Some [doc_a, doc_c], u_retry_count = None\<rparr>,
      [CallDocumentGrader ''why'' ''alpha'', CallDocumentGrader ''why'' ''beta'',
       CallDocumentGrader ''why'' ''gamma''])
   \<and> grade_documents (verdict_env [''no'', ''no'', ''no'']) three_docs [] =
     (Inr \<lparr>u_question = Some ''why'', u_generation = None,
           u_documents = Some [], u_retry_count = None\<rparr>,
      [CallDocumentGrader ''why'' ''alpha'', CallDocumentGrader ''why'' ''beta'',
       CallDocumentGrader ''why'' ''gamma''])"
proof -
  have h1: "documents three_docs = Some [doc_a, doc_b, doc_c]" by (simp add: three_docs_def)
  have h2: "length [''yes'', ''no'', ''yes''] = length [doc_a, doc_b, doc_c]" by simp
  have h2': "length [''no'', ''no'', ''no''] = length [doc_a, doc_b, doc_c]" by simp
  have h3: "\<And>i. i < length [doc_a, doc_b, doc_c] \<Longrightarrow>
      document_llm (verdict_env [''yes'', ''no'', ''yes'']) (length ([]::call list) + i)
        (question three_docs) (page_content ([doc_a, doc_b, doc_c] ! i))
      = Inr ([''yes'', ''no'', ''yes''] ! i)"
    by (simp add: verdict_env_def)
  have h3': "\<And>i. i < length [doc_a, doc_b, doc_c] \<Longrightarrow>
      document_llm (verdict_env [''no'', ''no'', ''no'']) (length ([]::call list) + i)
        (question three_docs) (page_content ([doc_a, doc_b, doc_c] ! i))
      = Inr ([''no'', ''no'', ''no''] ! i)"
    by (simp add: verdict_env_def)
  from grade_documents_keeps_relevant_in_order [OF h1 h2 h3]
       grade_documents_keeps_relevant_in_order [OF h1 h2' h3']
  show ?thesis
    by (simp add: three_docs_def doc_a_def doc_b_def doc_c_def Document_def)
qed

subsection \<open>C7: the branch at \<open>START\<close>\<close>

lemma start_edge_lookup:
  "conditional_edge start_edges (Some l) =
     (if l = ''web_search'' then Inr (Node WebSearch)
      else if l = ''vectorstore'' then Inr (Node Retrieve)
      else Inl (KeyError (key_repr l)))"
  by (simp add: conditional_edge_def start_edges_def)

text \<open>
  C7.  When the router's model answers with a label, the branch at \<open>START\<close> calls the
  router once and leads to \<open>web_search\<close> on \<open>web_search\<close> and to \<open>retrieve\<close> on
  \<open>vectorstore\<close>.  On any other label the execution fails: \<open>RouteQuery\<close> refuses the label,
  the error is the result of \<open>invoke\<close>, no node has started, no event was streamed and the
  router was called once (no retry, no fallback).  The path map itself has no other entry
  either: \<open>None\<close> and any other label are a \<open>KeyError\<close>.
\<close>

theorem route_maps_labels_or_fails:
  assumes "router_llm env 0 (question inputs) = Inr label"
  shows "start_branch env inputs [] =
           (if label = ''web_search'' then Inr (Node WebSearch)
            else if label = ''vectorstore'' then Inr (Node Retrieve)
            else Inl (ValidationError label), [CallRouter (question inputs)])
       \<and> (label \<noteq> ''web_search'' \<and> label \<noteq> ''vectorstore'' \<longrightarrow>
            invoke env limit inputs =
              (Inl (ValidationError label),
               \<lparr>calls = [CallRouter (question inputs)], started = [], events = []\<rparr>))
       \<and> conditional_edge start_edges None = Inl (KeyError ''None'')
       \<and> (label \<noteq> ''web_search'' \<and> label \<noteq> ''vectorstore'' \<longrightarrow>
            conditional_edge start_edges (Some label) = Inl (KeyError (key_repr label)))"
proof -
  have sb: "start_branch env inputs [] =
           (if label = ''web_search'' then Inr (Node WebSearch)
            else if label = ''vectorstore'' then Inr (Node Retrieve)
            else Inl (ValidationError label), [CallRouter (question inputs)])"
    using assms
    by (simp add: start_branch_def route_question_def question_router_route_def bind_exn_def
        RouteQuery_def start_edge_lookup)
  have inv: "label \<noteq> ''web_search'' \<and> label \<noteq> ''vectorstore'' \<longrightarrow>
            invoke env limit inputs =
              (Inl (ValidationError label),
               \<lparr>calls = [CallRouter (question inputs)], started = [], events = []\<rparr>)"
    by (simp add: invoke_def world0_def sb)
  have none: "conditional_edge start_edges None = Inl (KeyError ''None'')"
    by (simp add: conditional_edge_def)
  show ?thesis using sb inv none by (simp add: start_edge_lookup)
qed

theorem route_maps_labels_or_fails_witness:
  "invoke (scripted_env ''images'' ''yes'' ''yes'' ''yes'') 25 (query_inputs ''why'') =
     (Inl (ValidationError ''images''),
      \<lparr>calls = [CallRouter ''why''], started = [], events = []\<rparr>)
   \<and> start_branch (scripted_env ''web_search'' ''yes'' ''yes'' ''yes'') (query_inputs ''why'') []
       = (Inr (Node WebSearch), [CallRouter ''why''])
   \<and> start_branch (scripted_env ''vectorstore'' ''yes'' ''yes'' ''yes'') (query_inputs ''why'') []
       = (Inr (Node Retrieve), [CallRouter ''why''])"
proof -
  have h: "\<And>l. router_llm (scripted_env l ''yes'' ''yes'' ''yes'') 0
              (question (query_inputs ''why'')) = Inr l"
    by (simp add: scripted_env_def)
  from route_maps_labels_or_fails [OF h [of "''images''"], of 25]
       route_maps_labels_or_fails [OF h [of "''web_search''"], of 25]
       route_maps_labels_or_fails [OF h [of "''vectorstore''"], of 25]
  show ?thesis by (simp add: query_inputs_def)
qed

subsection \<open>C8: verdicts outside the two values\<close>

text \<open>
  C8 as stated, that a verdict outside \<open>yes\<close>/\<open>no\<close> is rejected, fails on the verdict
  \<open>maybe\<close>: \<open>GradeDocuments\<close> accepts it, and \<open>grade_documents\<close> returns normally, with
  the same result as under the verdict \<open>no\<close>.
\<close>

theorem verdict_outside_domain_counterexample:
  "GradeDocuments ''maybe'' = Inr ''maybe''
   \<and> grade_documents (scripted_env ''vectorstore'' ''maybe'' ''yes'' ''yes'') (demo_state None) []
     = (Inr \<lparr>u_question = Some ''why'', u_generation = None,
             u_documents = Some [], u_retry_count = None\<rparr>,
        [CallDocumentGrader ''why'' ''alpha'', CallDocumentGrader ''why'' ''beta''])
   \<and> grade_documents (scripted_env ''vectorstore'' ''no'' ''yes'' ''yes'') (demo_state None) []
     = (Inr \<lparr>u_question = Some ''why'', u_generation = None,
             u_documents = Some [], u_retry_count = None\<rparr>,
        [CallDocumentGrader ''why'' ''alpha'', CallDocumentGrader ''why'' ''beta''])"
  by (simp add: grade_documents_def get_documents_def demo_state_def scripted_env_def
      document_grader_grade_def bind_exn_def GradeDocuments_def doc_a_def doc_b_def Document_def)

text \<open>
  C8, as the code has it.  Every verdict string is accepted by the three grader models,
  and every verdict other than \<open>yes\<close> is read as negative: the relevance loop drops the
  passage, the groundedness branch answers \<open>not supported\<close>, and the adequacy branch
  answers \<open>not useful\<close>, or \<open>useful\<close> once \<open>retry_count\<close> is at least 3.
\<close>

theorem verdicts_other_than_yes_are_negative:
  assumes "v \<noteq> ''yes''"
  shows "GradeDocuments v = Inr v \<and> GradeHallucinations v = Inr v \<and> GradeAnswer v = Inr v
       \<and> (document_llm env (length cs) q (page_content doc) = Inr v \<longrightarrow>
            grade_loop env q (doc # rest) acc cs =
              grade_loop env q rest acc (cs @ [CallDocumentGrader q (page_content doc)]))
       \<and> (documents s = Some docs \<and> generation s = Some g
            \<and> hallucination_llm env (length cs) (join newline (map page_content docs)) g = Inr v \<longrightarrow>
            grade_generation_v_documents_and_question env s cs =
              (Inr ''not supported'',
               cs @ [CallHallucinationGrader (join newline (map page_content docs)) g]))
       \<and> (documents s = Some docs \<and> generation s = Some g
            \<and> hallucination_llm env (length cs) (join newline (map page_content docs)) g
                = Inr ''yes''
            \<and> answer_llm env (Suc (length cs)) (question s) g = Inr v \<longrightarrow>
            grade_generation_v_documents_and_question env s cs =
              (Inr (if get_retry_count s \<ge> 3 then ''useful'' else ''not useful''),
               cs @ [CallHallucinationGrader (join newline (map page_content docs)) g,
                     CallAnswerGrader (question s) g]))"
proof -
  have a: "GradeDocuments v = Inr v \<and> GradeHallucinations v = Inr v \<and> GradeAnswer v = Inr v"
    by (simp add: GradeDocuments_def GradeHallucinations_def GradeAnswer_def)
  have b: "document_llm env (length cs) q (page_content doc) = Inr v \<longrightarrow>
            grade_loop env q (doc # rest) acc cs =
              grade_loop env q rest acc (cs @ [CallDocumentGrader q (page_content doc)])"
    using assms by (simp add: document_grader_grade_def bind_exn_def GradeDocuments_def)
  have c: "documents s = Some docs \<and> generation s = Some g
            \<and> hallucination_llm env (length cs) (join newline (map page_content docs)) g = Inr v \<longrightarrow>
            grade_generation_v_documents_and_question env s cs =
              (Inr ''not supported'',
               cs @ [CallHallucinationGrader (join newline (map page_content docs)) g])"
    using assms not_yes_is_not_supported by blast
  have d: "documents s = Some docs \<and> generation s = Some g
            \<and> hallucination_llm env (length cs) (join newline (map page_content docs)) g
                = Inr ''yes''
            \<and> answer_llm env (Suc (length cs)) (question s) g = Inr v \<longrightarrow>
            grade_generation_v_documents_and_question env s cs =
              (Inr (if get_retry_count s \<ge> 3 then ''useful'' else ''not useful''),
               cs @ [CallHallucinationGrader (join newline (map page_content docs)) g,
                     CallAnswerGrader (question s) g])"
    using assms
    by (simp add: grade_generation_v_documents_and_question_def get_documents_def
        get_generation_def collab_defs)
  from a b c d show ?thesis by blast
qed

theorem verdicts_other_than_yes_are_negative_witness:
  "GradeHallucinations ''maybe'' = Inr ''maybe''
   \<and> grade_generation_v_documents_and_question
       (scripted_env ''vectorstore'' ''yes'' ''maybe'' ''yes'') (demo_state (Some 0)) []
     = (Inr ''not supported'',
        [CallHallucinationGrader (join newline (map page_content [doc_a, doc_b])) ''an answer''])
   \<and> grade_generation_v_documents_and_question
       (scripted_env ''vectorstore'' ''yes'' ''yes'' ''maybe'') (demo_state (Some 0)) []
     = (Inr ''not useful'',
        [CallHallucinationGrader (join newline (map page_content [doc_a, doc_b])) ''an answer'',
         CallAnswerGrader ''why'' ''an answer''])"
proof -
  have v: "''maybe'' \<noteq> ''yes''" by simp
  have s: "documents (demo_state (Some 0)) = Some [doc_a, doc_b]"
    "generation (demo_state (Some 0)) = Some ''an answer''"
    "question (demo_state (Some 0)) = ''why''" "get_retry_count (demo_state (Some 0)) = 0"
    by (simp_all add: demo_state_def get_retry_count_def)
  have e: "\<And>t d g. hallucination_llm (scripted_env ''vectorstore'' ''yes'' ''maybe'' ''yes'') t d g
              = Inr ''maybe''"
    "\<And>t d g. hallucination_llm (scripted_env ''vectorstore'' ''yes'' ''yes'' ''maybe'') t d g
              = Inr ''yes''"
    "\<And>t d g. answer_llm (scripted_env ''vectorstore'' ''yes'' ''yes'' ''maybe'') t d g
              = Inr ''maybe''"
    by (simp_all add: scripted_env_def)
  from verdicts_other_than_yes_are_negative [OF v,
         where env = "scripted_env ''vectorstore'' ''yes'' ''maybe'' ''yes''"
           and s = "demo_state (Some 0)" and cs = "[]" and docs = "[doc_a, doc_b]"
           and g = "''an answer''"]
       verdicts_other_than_yes_are_negative [OF v,
         where env = "scripted_env ''vectorstore'' ''yes'' ''yes'' ''maybe''"
           and s = "demo_state (Some 0)" and cs = "[]" and docs = "[doc_a, doc_b]"
           and g = "''an answer''"]
  show ?thesis by (simp add: s e)
qed

subsection \<open>C9: \<open>WebSearcher.search\<close> does not raise\<close>

lemma web_searcher_search_cases:
  "web_searcher_search env q cs =
     (Inr (case web_search_tool env (length cs) q of
             Inl e \<Rightarrow> Document (''Web search failed: '' @ exn_str e)
           | Inr v \<Rightarrow>
               (case web_results env v of
                  Inl e \<Rightarrow> Document (''Web search failed: '' @ exn_str e)
                | Inr text \<Rightarrow> Document text)),
      cs @ [CallWebSearchTool q])"
  by (simp add: web_searcher_search_def bind_exn_def split: sum.split)

lemma web_search_writes_search_result:
  assumes "web_searcher_search env (question s) cs = (Inr doc, cs')"
  shows "web_search env s cs =
           (Inr \<lparr>u_question = Some (question s), u_generation = None,
                 u_documents = Some [doc], u_retry_count = None\<rparr>, cs')"
  using assms by (simp add: web_search_def)

lemma after_web_search:
  "apply_update s \<lparr>u_question = Some (question s), u_generation = None,
                    u_documents = Some [doc], u_retry_count = None\<rparr>
     = s\<lparr>documents := Some [doc]\<rparr>"
  by (simp add: apply_update_def)

text \<open>
  C9.  For every question and every behaviour of the web search tool,
  \<open>WebSearcher.search\<close> returns a document after one call of the tool.  When the tool
  raises, and also when the processing of its answer raises, the document's content is
  \<open>Web search failed: \<close> followed by the text of the exception.  The node \<open>web_search\<close>
  writes exactly the document the searcher returned, as the only passage: the failure
  passage when the tool or the processing raised, the search results otherwise.  The
  execution goes on: the edge after \<open>web_search\<close> leads to \<open>generate\<close>, which runs next on
  the state that holds that passage.
\<close>

theorem web_search_never_raises:
  "(\<exists>doc. web_searcher_search env q cs = (Inr doc, cs @ [CallWebSearchTool q]))
   \<and> (web_search_tool env (length cs) q = Inl e \<longrightarrow>
        web_searcher_search env q cs =
          (Inr (Document (''Web search failed: '' @ exn_str e)), cs @ [CallWebSearchTool q]))
   \<and> (web_search_tool env (length cs) q = Inr v \<and> web_results env v = Inl e \<longrightarrow>
        web_searcher_search env q cs =
          (Inr (Document (''Web search failed: '' @ exn_str e)), cs @ [CallWebSearchTool q]))
   \<and> (\<exists>doc. web_searcher_search env (question s) cs
                 = (Inr doc, cs @ [CallWebSearchTool (question s)])
        \<and> web_search env s cs =
            (Inr \<lparr>u_question = Some (question s), u_generation = None,
                  u_documents = Some [doc], u_retry_count = None\<rparr>,
             cs @ [CallWebSearchTool (question s)])
        \<and> documents
             (apply_update s \<lparr>u_question = Some (question s), u_generation = None,
                               u_documents = Some [doc], u_retry_count = None\<rparr>) = Some [doc])
   \<and> (web_search_tool env (length cs) (question s) = Inl e \<longrightarrow>
        web_search env s cs =
          (Inr \<lparr>u_question = Some (question s), u_generation = None,
                u_documents = Some [Document (''Web search failed: '' @ exn_str e)],
                u_retry_count = None\<rparr>,
           cs @ [CallWebSearchTool (question s)]))
   \<and> (web_search_tool env (length cs) (question s) = Inr v \<and> web_results env v = Inl e \<longrightarrow>
        web_search env s cs =
          (Inr \<lparr>u_question = Some (question s), u_generation = None,
                u_documents = Some [Document (''Web search failed: '' @ exn_str e)],
                u_retry_count = None\<rparr>,
           cs @ [CallWebSearchTool (question s)]))
   \<and> (web_search_tool env (length cs) (question s) = Inr v \<and> web_results env v = Inr text \<longrightarrow>
        web_search env s cs =
          (Inr \<lparr>u_question = Some (question s), u_generation = None,
                u_documents = Some [Document text], u_retry_count = None\<rparr>,
           cs @ [CallWebSearchTool (question s)]))
   \<and> (\<exists>doc. web_searcher_search env (question s) (calls w)
                 = (Inr doc, calls w @ [CallWebSearchTool (question s)])
        \<and> run_nodes env (Suc limit) WebSearch s w =
            run_nodes env limit Generate (s\<lparr>documents := Some [doc]\<rparr>)
              (w\<lparr>started := started w @ [WebSearch],
                 events := events w @
                   [(WebSearch, \<lparr>u_question = Some (question s), u_generation = None,
                                  u_documents = Some [doc], u_retry_count = None\<rparr>)],
                 calls := calls w @ [CallWebSearchTool (question s)]\<rparr>))
   \<and> next_node env WebSearch s' cs' = (Inr (Node Generate), cs')"
proof -
  have total: "\<exists>doc. web_searcher_search env q cs = (Inr doc, cs @ [CallWebSearchTool q])"
    for q cs
    by (simp add: web_searcher_search_cases)
  have tool: "web_search_tool env (length cs) q = Inl e \<longrightarrow>
        web_searcher_search env q cs =
          (Inr (Document (''Web search failed: '' @ exn_str e)), cs @ [CallWebSearchTool q])"
    for q
    by (simp add: web_searcher_search_cases)
  have body: "web_search_tool env (length cs) q = Inr v \<and> web_results env v = Inl e \<longrightarrow>
        web_searcher_search env q cs =
          (Inr (Document (''Web search failed: '' @ exn_str e)), cs @ [CallWebSearchTool q])"
    for q
    by (simp add: web_searcher_search_cases)
  have good: "web_search_tool env (length cs) q = Inr v \<and> web_results env v = Inr text \<longrightarrow>
        web_searcher_search env q cs = (Inr (Document text), cs @ [CallWebSearchTool q])"
    for q
    by (simp add: web_searcher_search_cases)
  have node: "\<exists>doc. web_searcher_search env (question s) cs
                 = (Inr doc, cs @ [CallWebSearchTool (question s)])
        \<and> web_search env s cs =
            (Inr \<lparr>u_question = Some (question s), u_generation = None,
                  u_documents = Some [doc], u_retry_count = None\<rparr>,
             cs @ [CallWebSearchTool (question s)])
        \<and> documents
             (apply_update s \<lparr>u_question = Some (question s), u_generation = None,
                               u_documents = Some [doc], u_retry_count = None\<rparr>) = Some [doc]"
  proof -
    from total [of "question s" cs] obtain doc where
      d: "web_searcher_search env (question s) cs
            = (Inr doc, cs @ [CallWebSearchTool (question s)])"
      by blast
    from d web_search_writes_search_result [OF d] show ?thesis
      by (intro exI [of _ doc]) (simp add: after_web_search)
  qed
  have node_tool: "web_search_tool env (length cs) (question s) = Inl e \<longrightarrow>
        web_search env s cs =
          (Inr \<lparr>u_question = Some (question s), u_generation = None,
                u_documents = Some [Document (''Web search failed: '' @ exn_str e)],
                u_retry_count = None\<rparr>,
           cs @ [CallWebSearchTool (question s)])"
    using tool [of "question s"] web_search_writes_search_result by blast
  have node_body: "web_search_tool env (length cs) (question s) = Inr v
          \<and> web_results env v = Inl e \<longrightarrow>
        web_search env s cs =
          (Inr \<lparr>u_question = Some (question s), u_generation = None,
                u_documents = Some [Document (''Web search failed: '' @ exn_str e)],
                u_retry_count = None\<rparr>,
           cs @ [CallWebSearchTool (question s)])"
    using body [of "question s"] web_search_writes_search_result by blast
  have node_good: "web_search_tool env (length cs) (question s) = Inr v
          \<and> web_results env v = Inr text \<longrightarrow>
        web_search env s cs =
          (Inr \<lparr>u_question = Some (question s), u_generation = None,
                u_documents = Some [Document text], u_retry_count = None\<rparr>,
           cs @ [CallWebSearchTool (question s)])"
    using good [of "question s"] web_search_writes_search_result by blast
  have run: "\<exists>doc. web_searcher_search env (question s) (calls w)
                 = (Inr doc, calls w @ [CallWebSearchTool (question s)])
        \<and> run_nodes env (Suc limit) WebSearch s w =
            run_nodes env limit Generate (s\<lparr>documents := Some [doc]\<rparr>)
              (w\<lparr>started := started w @ [WebSearch],
                 events := events w @
                   [(WebSearch, \<lparr>u_question = Some (question s), u_generation = None,
                                  u_documents = Some [doc], u_retry_count = None\<rparr>)],
                 calls := calls w @ [CallWebSearchTool (question s)]\<rparr>)"
  proof -
    from total [of "question s" "calls w"] obtain doc where
      d: "web_searcher_search env (question s) (calls w)
            = (Inr doc, calls w @ [CallWebSearchTool (question s)])"
      by blast
    have "run_nodes env (Suc limit) WebSearch s w =
            run_nodes env limit Generate (s\<lparr>documents := Some [doc]\<rparr>)
              (w\<lparr>started := started w @ [WebSearch],
                 events := events w @
                   [(WebSearch, \<lparr>u_question = Some (question s), u_generation = None,
                                  u_documents = Some [doc], u_retry_count = None\<rparr>)],
                 calls := calls w @ [CallWebSearchTool (question s)]\<rparr>)"
      using web_search_writes_search_result [OF d] by (simp add: Let_def after_web_search)
    with d show ?thesis by blast
  qed
  have edge: "next_node env WebSearch s' cs' = (Inr (Node Generate), cs')"
    by simp
  from total [of q cs] tool [of q] body [of q] node node_tool node_body node_good run edge
  show ?thesis by blast
qed

theorem web_search_never_raises_witness:
  "web_searcher_search (scripted_env ''web_search'' ''yes'' ''yes'' ''yes'') ''why'' [] =
     (Inr (Document ''Web search failed: timeout''), [CallWebSearchTool ''why''])
   \<and> web_searcher_search mixed_results_env ''why'' [] =
     (Inr (Document (''Web search failed: 'str' object has no attribute 'get'' @ [CHR 0x27])),
      [CallWebSearchTool ''why''])
   \<and> web_search (scripted_env ''web_search'' ''yes'' ''yes'' ''yes'') (query_inputs ''why'') [] =
     (Inr \<lparr>u_question = Some ''why'', u_generation = None,
           u_documents = Some [Document ''Web search failed: timeout''],
           u_retry_count = None\<rparr>,
      [CallWebSearchTool ''why''])
   \<and> invoke (scripted_env ''web_search'' ''yes'' ''yes'' ''yes'') 25 (query_inputs ''why'') =
     (Inr \<lparr>question = ''why'', generation = Some ''an answer'',
           documents = Some [Document ''Web search failed: timeout''],
           retry_count = Some 0\<rparr>,
      \<lparr>calls = [CallRouter ''why'', CallWebSearchTool ''why'',
                CallRagChain ''Web search failed: timeout'' ''why'',
                CallHallucinationGrader ''Web search failed: timeout'' ''an answer'',
                CallAnswerGrader ''why'' ''an answer''],
       started = [WebSearch, Generate],
       events = [(WebSearch, \<lparr>u_question = Some ''why'', u_generation = None,
                    u_documents = Some [Document ''Web search failed: timeout''],
                    u_retry_count = None\<rparr>),
                 (Generate, \<lparr>u_question = Some ''why'', u_generation = Some ''an answer'',
                    u_documents = Some [Document ''Web search failed: timeout''],
                    u_retry_count = None\<rparr>)]\<rparr>)"
proof -
  let ?env = "scripted_env ''web_search'' ''yes'' ''yes'' ''yes''"
  have h1: "web_search_tool ?env (length ([]::call list)) ''why'' = Inl (ServiceError ''timeout'')"
    by (simp add: scripted_env_def)
  have h1': "web_search_tool ?env (length ([]::call list)) (question (query_inputs ''why''))
      = Inl (ServiceError ''timeout'')"
    by (simp add: scripted_env_def)
  have h2: "web_search_tool mixed_results_env (length ([]::call list)) ''why''
              = Inr (PList [PDict [(''content'', PStr ''first'')], PStr ''second''])
          \<and> web_results mixed_results_env
                (PList [PDict [(''content'', PStr ''first'')], PStr ''second''])
              = Inl (AttributeError (key_repr ''str'' @ '' object has no attribute '' @ key_repr ''get''))"
    by (simp add: mixed_results_env_def scripted_env_def web_results_def bind_exn_def
        get_content_def key_repr_def)
  have q: "question (query_inputs ''why'') = ''why''" by (simp add: query_inputs_def)
  have a: "web_searcher_search ?env ''why'' [] =
     (Inr (Document ''Web search failed: timeout''), [CallWebSearchTool ''why''])"
    using web_search_never_raises [where env = ?env
          and q = "''why''" and cs = "[]" and e = "ServiceError ''timeout''"] h1
    by simp
  have b: "web_searcher_search mixed_results_env ''why'' [] =
     (Inr (Document (''Web search failed: 'str' object has no attribute 'get'' @ [CHR 0x27])),
      [CallWebSearchTool ''why''])"
    using web_search_never_raises [where env = mixed_results_env
          and q = "''why''" and cs = "[]"
          and v = "PList [PDict [(''content'', PStr ''first'')], PStr ''second'']"
          and e = "AttributeError (key_repr ''str'' @ '' object has no attribute '' @ key_repr ''get'')"]
       h2
    by (simp add: key_repr_def)
  have c: "web_search ?env (query_inputs ''why'') [] =
     (Inr \<lparr>u_question = Some ''why'', u_generation = None,
           u_documents = Some [Document ''Web search failed: timeout''],
           u_retry_count = None\<rparr>,
      [CallWebSearchTool ''why''])"
    using web_search_never_raises [where env = ?env and s = "query_inputs ''why''"
          and cs = "[]" and e = "ServiceError ''timeout''"] h1'
    by (simp add: q)
  have d: "invoke ?env 25 (query_inputs ''why'') =
     (Inr \<lparr>question = ''why'', generation = Some ''an answer'',
           documents = Some [Document ''Web search failed: timeout''],
           retry_count = Some 0\<rparr>,
      \<lparr>calls = [CallRouter ''why'', CallWebSearchTool ''why'',
                CallRagChain ''Web search failed: timeout'' ''why'',
                CallHallucinationGrader ''Web search failed: timeout'' ''an answer'',
                CallAnswerGrader ''why'' ''an answer''],
       started = [WebSearch, Generate],
       events = [(WebSearch, \<lparr>u_question = Some ''why'', u_generation = None,
                    u_documents = Some [Document ''Web search failed: timeout''],
                    u_retry_count = None\<rparr>),
                 (Generate, \<lparr>u_question = Some ''why'', u_generation = Some ''an answer'',
                    u_documents = Some [Document ''Web search failed: timeout''],
                    u_retry_count = None\<rparr>)]\<rparr>)"
    by (simp add: eval_nat_numeral invoke_def start_branch_def route_question_def collab_defs
        conditional_edge_def start_edges_def generate_edges_def world0_def query_inputs_def
        scripted_env_def Let_def web_search_def web_searcher_search_def get_documents_def
        generate_def rag_chain_generate_def format_docs_def apply_update_def
        grade_generation_v_documents_and_question_def get_generation_def get_retry_count_def
        Document_def)
  from a b c d show ?thesis by blast
qed

subsection \<open>C6: routing is exclusive\<close>

lemma generate_edge_lookup:
  "conditional_edge generate_edges (Some l) =
     (if l = ''not supported'' then Inr (Node Generate)
      else if l = ''useful'' then Inr END
      else if l = ''not useful'' then Inr (Node TransformQuery)
      else Inl (KeyError (key_repr l)))"
  by (simp add: conditional_edge_def generate_edges_def)

lemma grade_documents_edge_lookup:
  "conditional_edge grade_documents_edges (Some l) =
     (if l = ''transform_query'' then Inr (Node TransformQuery)
      else if l = ''generate'' then Inr (Node Generate)
      else Inl (KeyError (key_repr l)))"
  by (simp add: conditional_edge_def grade_documents_edges_def)

lemma next_node_target:
  assumes "next_node env n s cs = (Inr (Node m), cs')"
  shows "m \<noteq> WebSearch \<and> m \<noteq> Retrieve"
proof (cases n)
  case GradeDocs
  with assms show ?thesis
    by (auto simp: bind_exn_def decide_to_generate_def grade_documents_edge_lookup
        split: sum.splits if_splits)
next
  case Generate
  with assms show ?thesis
    by (auto simp: generate_edge_lookup split: prod.splits sum.splits if_splits)
qed (use assms in auto)

lemma run_nodes_started:
  "\<exists>rest. started (snd (run_nodes env limit n s w))
            = started w @ (if limit = 0 then [] else n # rest)
        \<and> WebSearch \<notin> set rest \<and> Retrieve \<notin> set rest"
proof (induction limit arbitrary: n s w)
  case 0
  then show ?case by (intro exI [of _ "[]"]) simp
next
  case (Suc limit)
  let ?w1 = "w\<lparr>started := started w @ [n]\<rparr>"
  show ?case
  proof (cases "node_fn env n s (calls ?w1)")
    case (Pair r cs)
    show ?thesis
    proof (cases r)
      case (Inl e)
      with Pair show ?thesis by (intro exI [of _ "[]"]) (simp add: Let_def)
    next
      case (Inr u)
      let ?s = "apply_update s u"
      let ?w2 = "?w1\<lparr>calls := cs, events := events ?w1 @ [(n, u)]\<rparr>"
      show ?thesis
      proof (cases "next_node env n ?s cs")
        case nx: (Pair t cs')
        show ?thesis
        proof (cases t)
          case (Inl e)
          with Pair Inr nx show ?thesis by (intro exI [of _ "[]"]) (simp add: Let_def)
        next
          case tr: (Inr tgt)
          show ?thesis
          proof (cases tgt)
            case END
            with Pair Inr nx tr show ?thesis by (intro exI [of _ "[]"]) (simp add: Let_def)
          next
            case (Node m)
            have m: "m \<noteq> WebSearch \<and> m \<noteq> Retrieve"
              using next_node_target nx tr Node by blast
            from Suc.IH [of m ?s "?w2\<lparr>calls := cs'\<rparr>"]
            obtain rest where rest:
              "started (snd (run_nodes env limit m ?s (?w2\<lparr>calls := cs'\<rparr>)))
                 = started (?w2\<lparr>calls := cs'\<rparr>) @ (if limit = 0 then [] else m # rest)"
              "WebSearch \<notin> set rest" "Retrieve \<notin> set rest"
              by blast
            have run: "run_nodes env (Suc limit) n s w
                = run_nodes env limit m ?s (?w2\<lparr>calls := cs'\<rparr>)"
              using Pair Inr nx tr Node by (simp add: Let_def)
            show ?thesis
              unfolding run using rest m
              by (intro exI [of _ "if limit = 0 then [] else m # rest"]) auto
          qed
        qed
      qed
    qed
  qed
qed

lemma start_branch_target:
  assumes "start_branch env s cs = (Inr t, cs')"
  shows "t = Node WebSearch \<or> t = Node Retrieve"
  using assms
  by (auto simp: start_branch_def route_question_def conditional_edge_def start_edges_def
      split: prod.splits sum.splits if_splits)

lemma invoke_started:
  "started (snd (invoke env limit inputs)) = []
   \<or> (\<exists>n rest. started (snd (invoke env limit inputs)) = n # rest
          \<and> (n = WebSearch \<or> n = Retrieve)
          \<and> WebSearch \<notin> set rest \<and> Retrieve \<notin> set rest)"
proof (cases "start_branch env inputs (calls world0)")
  case (Pair r cs)
  show ?thesis
  proof (cases r)
    case (Inl e)
    with Pair show ?thesis by (simp add: invoke_def world0_def)
  next
    case (Inr t)
    from start_branch_target Pair Inr obtain n where n: "t = Node n" "n = WebSearch \<or> n = Retrieve"
      by blast
    have inv: "invoke env limit inputs = run_nodes env limit n inputs (world0\<lparr>calls := cs\<rparr>)"
      using Pair Inr n by (simp add: invoke_def)
    from run_nodes_started [of env limit n inputs "world0\<lparr>calls := cs\<rparr>"]
    obtain rest where "started (snd (invoke env limit inputs))
        = (if limit = 0 then [] else n # rest)" "WebSearch \<notin> set rest" "Retrieve \<notin> set rest"
      unfolding inv by (auto simp: world0_def)
    with n show ?thesis by (cases "limit = 0") auto
  qed
qed

text \<open>
  C6.  In every execution, whatever the collaborators answer and whatever the limit:
  when \<open>generate\<close> is entered, exactly one of \<open>retrieve\<close> and \<open>web_search\<close> was entered
  before its first entry; and no execution enters more than one of them in all.
\<close>

theorem routing_is_exclusive:
  "(Generate \<in> set (started (snd (invoke env limit inputs))) \<longrightarrow>
      length (filter (\<lambda>n. n = WebSearch \<or> n = Retrieve)
        (takeWhile (\<lambda>n. n \<noteq> Generate) (started (snd (invoke env limit inputs))))) = 1)
   \<and> length (filter (\<lambda>n. n = WebSearch \<or> n = Retrieve)
        (started (snd (invoke env limit inputs)))) \<le> 1"
proof -
  let ?ns = "started (snd (invoke env limit inputs))"
  from invoke_started [of env limit inputs]
  consider "?ns = []"
    | n rest where "?ns = n # rest" "n = WebSearch \<or> n = Retrieve"
        "WebSearch \<notin> set rest" "Retrieve \<notin> set rest"
    by blast
  then show ?thesis
  proof cases
    case 1
    then show ?thesis by simp
  next
    case 2
    have all: "filter (\<lambda>n. n = WebSearch \<or> n = Retrieve) rest = []"
      using 2(3,4) by (auto simp: filter_empty_conv)
    have pre: "filter (\<lambda>n. n = WebSearch \<or> n = Retrieve) (takeWhile (\<lambda>n. n \<noteq> Generate) rest) = []"
      using 2(3,4) by (auto simp: filter_empty_conv dest: set_takeWhileD)
    from 2(1,2) all pre show ?thesis by auto
  qed
qed

theorem routing_is_exclusive_witness:
  "started (snd (invoke (scripted_env ''vectorstore'' ''yes'' ''yes'' ''yes'') 25 (query_inputs ''why'')))
     = [Retrieve, GradeDocs, Generate]
   \<and> length (filter (\<lambda>n. n = WebSearch \<or> n = Retrieve)
        (takeWhile (\<lambda>n. n \<noteq> Generate)
          (started (snd (invoke (scripted_env ''vectorstore'' ''yes'' ''yes'' ''yes'') 25
             (query_inputs ''why'')))))) = 1"
proof -
  have run: "started (snd (invoke (scripted_env ''vectorstore'' ''yes'' ''yes'' ''yes'') 25 (query_inputs ''why'')))
     = [Retrieve, GradeDocs, Generate]"
    by (simp add: eval_nat_numeral invoke_def start_branch_def route_question_def
        collab_defs start_edge_lookup generate_edge_lookup grade_documents_edge_lookup
        world0_def query_inputs_def scripted_env_def Let_def
        retrieve_def retriever_retrieve_def grade_documents_def get_documents_def
        generate_def rag_chain_generate_def apply_update_def decide_to_generate_def
        grade_generation_v_documents_and_question_def get_generation_def)
  then have g: "Generate \<in> set (started (snd (invoke (scripted_env ''vectorstore'' ''yes'' ''yes'' ''yes'') 25 (query_inputs ''why''))))"
    by simp
  from routing_is_exclusive [of "scripted_env ''vectorstore'' ''yes'' ''yes'' ''yes''" 25
      "query_inputs ''why''"] g run
  show ?thesis by blast
qed

subsection \<open>C4: \<open>retry_count\<close> never decreases\<close>

lemma node_fn_retry_write:
  assumes "node_fn env n s cs = (Inr u, cs')"
  shows "u_retry_count u = (if n = TransformQuery then Some (get_retry_count s + 1) else None)"
proof (cases n)
  case WebSearch
  with assms show ?thesis
    by (auto simp: web_search_def split: prod.splits sum.splits)
next
  case Retrieve
  with assms show ?thesis
    by (auto simp: retrieve_def split: prod.splits sum.splits)
next
  case GradeDocs
  with assms show ?thesis
    by (auto simp: grade_documents_def split: prod.splits sum.splits)
next
  case Generate
  with assms show ?thesis
    by (auto simp: generate_def split: prod.splits sum.splits)
next
  case TransformQuery
  with assms show ?thesis
    by (auto simp: transform_query_def)
qed

lemma retry_count_after_update:
  "get_retry_count (apply_update s u) =
     (case u_retry_count u of None \<Rightarrow> get_retry_count s | Some r \<Rightarrow> r)"
  by (simp add: get_retry_count_def apply_update_def split: option.splits)

lemma node_fn_retry_step:
  assumes "node_fn env n s cs = (Inr u, cs')"
  shows "get_retry_count (apply_update s u) =
           get_retry_count s + (if n = TransformQuery then 1 else 0)"
  using node_fn_retry_write [OF assms] by (simp add: retry_count_after_update)

lemma replay_Cons: "replay s ((n, u) # es) = replay (apply_update s u) es"
  by (simp add: replay_def)

lemma replay_Nil: "replay s [] = s"
  by (simp add: replay_def)

lemma run_nodes_events:
  "\<exists>es. events (snd (run_nodes env limit n s w)) = events w @ es
      \<and> (\<forall>i\<le>length es. get_retry_count (replay s (take i es))
             = get_retry_count s + int (count_list (map fst (take i es)) TransformQuery))
      \<and> (\<forall>s'. fst (run_nodes env limit n s w) = Inr s' \<longrightarrow> s' = replay s es)"
proof (induction limit arbitrary: n s w)
  case 0
  then show ?case by (intro exI [of _ "[]"]) (simp add: replay_Nil)
next
  case (Suc limit)
  let ?w1 = "w\<lparr>started := started w @ [n]\<rparr>"
  show ?case
  proof (cases "node_fn env n s (calls ?w1)")
    case (Pair r cs)
    show ?thesis
    proof (cases r)
      case (Inl e)
      with Pair show ?thesis by (intro exI [of _ "[]"]) (simp add: Let_def replay_Nil)
    next
      case (Inr u)
      let ?s = "apply_update s u"
      let ?w2 = "?w1\<lparr>calls := cs, events := events ?w1 @ [(n, u)]\<rparr>"
      have nf: "node_fn env n s (calls w) = (Inr u, cs)"
        using Pair Inr by simp
      have rc: "get_retry_count ?s = get_retry_count s + (if n = TransformQuery then 1 else 0)"
        by (rule node_fn_retry_step [OF nf])
      have one: "\<forall>i\<le>length [(n, u)]. get_retry_count (replay s (take i [(n, u)]))
             = get_retry_count s + int (count_list (map fst (take i [(n, u)])) TransformQuery)"
      proof (intro allI impI)
        fix i assume "i \<le> length [(n, u)]"
        then consider "i = 0" | "i = Suc 0" by (cases i) auto
        then show "get_retry_count (replay s (take i [(n, u)]))
             = get_retry_count s + int (count_list (map fst (take i [(n, u)])) TransformQuery)"
          by cases (simp_all add: replay_Nil replay_Cons rc)
      qed
      show ?thesis
      proof (cases "next_node env n ?s cs")
        case nx: (Pair t cs')
        show ?thesis
        proof (cases t)
          case (Inl e)
          with Pair Inr nx one show ?thesis
            by (intro exI [of _ "[(n, u)]"]) (simp add: Let_def)
        next
          case tr: (Inr tgt)
          show ?thesis
          proof (cases tgt)
            case END
            with Pair Inr nx tr one show ?thesis
              by (intro exI [of _ "[(n, u)]"]) (simp add: Let_def replay_Cons replay_Nil)
          next
            case (Node m)
            let ?w3 = "?w2\<lparr>calls := cs'\<rparr>"
            from Suc.IH [of m ?s ?w3]
            obtain es where es:
              "events (snd (run_nodes env limit m ?s ?w3)) = events ?w3 @ es"
              "\<forall>i\<le>length es. get_retry_count (replay ?s (take i es))
                 = get_retry_count ?s + int (count_list (map fst (take i es)) TransformQuery)"
              "\<forall>s'. fst (run_nodes env limit m ?s ?w3) = Inr s' \<longrightarrow> s' = replay ?s es"
              by blast
            have run: "run_nodes env (Suc limit) n s w = run_nodes env limit m ?s ?w3"
              using Pair Inr nx tr Node by (simp add: Let_def)
            have pre: "\<forall>i\<le>length ((n, u) # es).
                get_retry_count (replay s (take i ((n, u) # es)))
                 = get_retry_count s
                   + int (count_list (map fst (take i ((n, u) # es))) TransformQuery)"
            proof (intro allI impI)
              fix i assume i: "i \<le> length ((n, u) # es)"
              show "get_retry_count (replay s (take i ((n, u) # es)))
                 = get_retry_count s
                   + int (count_list (map fst (take i ((n, u) # es))) TransformQuery)"
              proof (cases i)
                case 0
                then show ?thesis by (simp add: replay_Nil)
              next
                case (Suc j)
                with i have "j \<le> length es" by simp
                with es(2) have "get_retry_count (replay ?s (take j es))
                 = get_retry_count ?s + int (count_list (map fst (take j es)) TransformQuery)"
                  by blast
                with Suc rc show ?thesis by (simp add: replay_Cons)
              qed
            qed
            show ?thesis
              unfolding run using es(1,3) pre
              by (intro exI [of _ "(n, u) # es"]) (simp add: replay_Cons)
          qed
        qed
      qed
    qed
  qed
qed

lemma invoke_events:
  "(\<forall>i\<le>length (events (snd (invoke env limit inputs))).
       get_retry_count (replay inputs (take i (events (snd (invoke env limit inputs)))))
         = get_retry_count inputs
           + int (count_list (map fst (take i (events (snd (invoke env limit inputs)))))
                    TransformQuery))
   \<and> (\<forall>s'. fst (invoke env limit inputs) = Inr s' \<longrightarrow>
          s' = replay inputs (events (snd (invoke env limit inputs))))"
proof (cases "start_branch env inputs (calls world0)")
  case (Pair r cs)
  show ?thesis
  proof (cases r)
    case (Inl e)
    with Pair show ?thesis by (simp add: invoke_def world0_def replay_Nil)
  next
    case (Inr t)
    from start_branch_target Pair Inr obtain n where n: "t = Node n"
      by blast
    have inv: "invoke env limit inputs = run_nodes env limit n inputs (world0\<lparr>calls := cs\<rparr>)"
      using Pair Inr n by (simp add: invoke_def)
    from run_nodes_events [of env limit n inputs "world0\<lparr>calls := cs\<rparr>"]
    show ?thesis unfolding inv by (auto simp: world0_def)
  qed
qed

lemma count_list_take_mono:
  assumes "i \<le> j"
  shows "count_list (take i xs) y \<le> count_list (take j xs) y"
proof -
  have "take j xs = take i xs @ drop i (take j xs)"
    using assms by (metis append_take_drop_id min.absorb1 take_take)
  then have "count_list (take j xs) y
      = count_list (take i xs) y + count_list (drop i (take j xs)) y"
    by (metis count_list_append)
  then show ?thesis by simp
qed

text \<open>
  C4.  Take an execution started by either entry point, and read \<open>retry_count\<close> the way
  the code does (\<open>state.get("retry_count", 0)\<close>).  It starts at 0.  After any number \<open>j\<close>
  of streamed events it equals the number of \<open>transform_query\<close> events among them, so it
  is not smaller than after any \<open>i \<le> j\<close> events; a final state is the state after all
  events.  Step by step: \<open>transform_query\<close> is the only node that writes the key, it
  writes the value read plus one, and after any other node (\<open>generate\<close> on the
  "not supported" loop among them) the value is the same as before.
\<close>

theorem retry_count_monotone:
  assumes "inputs = query_inputs q \<or> inputs = query_simple_inputs q"
    and "i \<le> j" and "j \<le> length (events (snd (invoke env limit inputs)))"
  shows "get_retry_count inputs = 0
       \<and> get_retry_count (replay inputs (take j (events (snd (invoke env limit inputs)))))
           = int (count_list (map fst (take j (events (snd (invoke env limit inputs)))))
                    TransformQuery)
       \<and> get_retry_count (replay inputs (take i (events (snd (invoke env limit inputs)))))
           \<le> get_retry_count (replay inputs (take j (events (snd (invoke env limit inputs)))))
       \<and> (case fst (invoke env limit inputs) of
             Inl e \<Rightarrow> True
           | Inr s' \<Rightarrow> s' = replay inputs (events (snd (invoke env limit inputs))))
       \<and> (case node_fn env n s cs of
             (Inl e, cs') \<Rightarrow> True
           | (Inr u, cs') \<Rightarrow>
               u_retry_count u
                 = (if n = TransformQuery then Some (get_retry_count s + 1) else None)
               \<and> get_retry_count (apply_update s u)
                 = get_retry_count s + (if n = TransformQuery then 1 else 0))"
proof -
  let ?es = "events (snd (invoke env limit inputs))"
  have z: "get_retry_count inputs = 0"
    using assms(1) by (auto simp: query_inputs_def query_simple_inputs_def get_retry_count_def)
  have ij: "i \<le> length ?es" using assms(2,3) by simp
  have cj: "get_retry_count (replay inputs (take j ?es))
           = int (count_list (map fst (take j ?es)) TransformQuery)"
    using invoke_events [of env limit inputs] assms(3) z by simp
  have ci: "get_retry_count (replay inputs (take i ?es))
           = int (count_list (map fst (take i ?es)) TransformQuery)"
    using invoke_events [of env limit inputs] ij z by simp
  have mono: "get_retry_count (replay inputs (take i ?es))
           \<le> get_retry_count (replay inputs (take j ?es))"
    unfolding ci cj using count_list_take_mono [OF assms(2), of "map fst ?es" TransformQuery]
    by (simp add: take_map)
  have fin: "case fst (invoke env limit inputs) of
             Inl e \<Rightarrow> True
           | Inr s' \<Rightarrow> s' = replay inputs ?es"
    using invoke_events [of env limit inputs] by (simp split: sum.split)
  have step: "case node_fn env n s cs of
             (Inl e, cs') \<Rightarrow> True
           | (Inr u, cs') \<Rightarrow>
               u_retry_count u
                 = (if n = TransformQuery then Some (get_retry_count s + 1) else None)
               \<and> get_retry_count (apply_update s u)
                 = get_retry_count s + (if n = TransformQuery then 1 else 0)"
    using node_fn_retry_write [of env n s cs] node_fn_retry_step [of env n s cs]
    by (auto split: prod.split sum.split)
  from z cj mono fin step show ?thesis by blast
qed


lemmas run_defs = invoke_def start_branch_def route_question_def
  collab_defs start_edge_lookup generate_edge_lookup grade_documents_edge_lookup
  world0_def query_inputs_def query_simple_inputs_def scripted_env_def Let_def
  retrieve_def retriever_retrieve_def grade_documents_def get_documents_def
  generate_def rag_chain_generate_def apply_update_def decide_to_generate_def
  grade_generation_v_documents_and_question_def get_generation_def
  transform_query_def get_retry_count_def get_documents_default_def
  web_search_def web_searcher_search_def

theorem retry_count_monotone_witness:
  "map fst (events (snd (invoke (scripted_env ''vectorstore'' ''yes'' ''yes'' ''no'') 25
       (query_inputs ''why''))))
     = [Retrieve, GradeDocs, Generate, TransformQuery, Generate, TransformQuery, Generate,
        TransformQuery, Generate]
   \<and> get_retry_count (replay (query_inputs ''why'')
        (take 9 (events (snd (invoke (scripted_env ''vectorstore'' ''yes'' ''yes'' ''no'') 25
           (query_inputs ''why'')))))) = 3
   \<and> get_retry_count (replay (query_inputs ''why'')
        (take 3 (events (snd (invoke (scripted_env ''vectorstore'' ''yes'' ''yes'' ''no'') 25
           (query_inputs ''why'')))))) = 0"
proof -
  let ?inv = "invoke (scripted_env ''vectorstore'' ''yes'' ''yes'' ''no'') 25 (query_inputs ''why'')"
  have ev: "map fst (events (snd ?inv))
     = [Retrieve, GradeDocs, Generate, TransformQuery, Generate, TransformQuery, Generate,
        TransformQuery, Generate]"
    by (simp add: eval_nat_numeral run_defs)
  have len: "length (events (snd ?inv)) = 9"
    using arg_cong [OF ev, of length] by simp
  have h1: "query_inputs ''why'' = query_inputs ''why'' \<or> query_inputs ''why'' = query_simple_inputs ''why''"
    by simp
  have h9: "(9::nat) \<le> length (events (snd ?inv))" using len by simp
  have h3: "(3::nat) \<le> length (events (snd ?inv))" using len by simp
  have t9: "map fst (take 9 (events (snd ?inv))) = take 9 (map fst (events (snd ?inv)))"
    and t3: "map fst (take 3 (events (snd ?inv))) = take 3 (map fst (events (snd ?inv)))"
    by (simp_all add: take_map)
  from retry_count_monotone [OF h1 order_refl h9] retry_count_monotone [OF h1 order_refl h3]
  have "get_retry_count (replay (query_inputs ''why'') (take 9 (events (snd ?inv))))
          = int (count_list (map fst (take 9 (events (snd ?inv)))) TransformQuery)"
    and "get_retry_count (replay (query_inputs ''why'') (take 3 (events (snd ?inv))))
          = int (count_list (map fst (take 3 (events (snd ?inv)))) TransformQuery)"
    by blast+
  then show ?thesis unfolding t9 t3 ev using ev by simp
qed

subsection \<open>C10: \<open>query_simple\<close> and \<open>query\<close>\<close>

lemma defaulted_reads:
  "question (retry_count_defaulted s) = question s"
  "documents (retry_count_defaulted s) = documents s"
  "generation (retry_count_defaulted s) = generation s"
  "get_retry_count (retry_count_defaulted s) = get_retry_count s"
  "get_documents (retry_count_defaulted s) = get_documents s"
  "get_generation (retry_count_defaulted s) = get_generation s"
  "get_documents_default (retry_count_defaulted s) = get_documents_default s"
  by (simp_all add: retry_count_defaulted_def get_retry_count_def get_documents_def
      get_generation_def get_documents_default_def)

lemma node_fn_defaulted: "node_fn env n (retry_count_defaulted s) cs = node_fn env n s cs"
  by (cases n)
     (simp_all add: web_search_def retrieve_def grade_documents_def generate_def
        transform_query_def defaulted_reads split: prod.split sum.split)

lemma next_node_defaulted: "next_node env n (retry_count_defaulted s) cs = next_node env n s cs"
  by (cases n)
     (simp_all add: decide_to_generate_def grade_generation_v_documents_and_question_def
        defaulted_reads Let_def split: prod.split sum.split)

lemma start_branch_defaulted:
  "start_branch env (retry_count_defaulted s) cs = start_branch env s cs"
  by (simp add: start_branch_def route_question_def defaulted_reads)

lemma apply_update_defaulted:
  "apply_update (retry_count_defaulted s) u = retry_count_defaulted (apply_update s u)"
  by (simp add: apply_update_def retry_count_defaulted_def get_retry_count_def
      split: option.splits)

lemma run_nodes_defaulted:
  "run_nodes env limit n (retry_count_defaulted s) w =
     (map_sum id retry_count_defaulted (fst (run_nodes env limit n s w)),
      snd (run_nodes env limit n s w))"
proof (induction limit arbitrary: n s w)
  case 0
  then show ?case by simp
next
  case (Suc limit)
  show ?case
    by (simp add: Let_def node_fn_defaulted next_node_defaulted apply_update_defaulted Suc.IH
        split: prod.split sum.split target.split)
qed

lemma invoke_defaulted:
  "invoke env limit (retry_count_defaulted s) =
     (map_sum id retry_count_defaulted (fst (invoke env limit s)), snd (invoke env limit s))"
  by (simp add: invoke_def start_branch_defaulted run_nodes_defaulted
      split: prod.split sum.split target.split)

lemma query_inputs_defaulted: "query_inputs q = retry_count_defaulted (query_simple_inputs q)"
  by (simp add: query_inputs_def query_simple_inputs_def retry_count_defaulted_def
      get_retry_count_def)

lemma next_node_END:
  assumes "next_node env n s cs = (Inr END, cs')"
  shows "n = Generate"
  using assms
  by (cases n)
     (auto simp: bind_exn_def decide_to_generate_def grade_documents_edge_lookup
        split: sum.splits if_splits)

lemma run_nodes_last_event:
  assumes "run_nodes env limit n s w = (Inr s', w')"
  shows "events w' \<noteq> [] \<and> u_generation (snd (last (events w'))) = generation s'"
  using assms
proof (induction limit arbitrary: n s w)
  case 0
  then show ?case by simp
next
  case (Suc limit)
  let ?w1 = "w\<lparr>started := started w @ [n]\<rparr>"
  obtain r cs where nf: "node_fn env n s (calls w) = (r, cs)" by (cases "node_fn env n s (calls w)")
  with Suc.prems obtain u where u: "r = Inr u"
    by (cases r) (auto simp: Let_def)
  let ?s = "apply_update s u"
  obtain t cs' where nx: "next_node env n ?s cs = (t, cs')" by (cases "next_node env n ?s cs")
  with Suc.prems nf u obtain tgt where t: "t = Inr tgt"
    by (cases t) (auto simp: Let_def)
  show ?case
  proof (cases tgt)
    case END
    have n: "n = Generate" using next_node_END nx t END by blast
    have gen: "generate env s (calls w) = (Inr u, cs)" using nf u n by simp
    have ug: "u_generation u \<noteq> None" using generate_writes [OF gen] by simp
    have fin: "s' = ?s" "w' = ?w1\<lparr>calls := cs, events := events ?w1 @ [(n, u)], calls := cs'\<rparr>"
      using Suc.prems nf u nx t END by (simp_all add: Let_def)
    show ?thesis using ug by (auto simp: fin apply_update_def)
  next
    case (Node m)
    have "run_nodes env limit m ?s (w\<lparr>started := started w @ [n], events := events w @ [(n, u)],
        calls := cs'\<rparr>) = (Inr s', w')"
      using Suc.prems nf u nx t Node by (simp add: Let_def)
    from Suc.IH [OF this] show ?thesis .
  qed
qed

lemma invoke_last_event:
  assumes "invoke env limit inputs = (Inr s', w')"
  shows "events w' \<noteq> [] \<and> u_generation (snd (last (events w'))) = generation s'"
proof (cases "start_branch env inputs (calls world0)")
  case (Pair r cs)
  with assms obtain t where t: "r = Inr t" by (cases r) (auto simp: invoke_def)
  from start_branch_target Pair t obtain n where n: "t = Node n" by blast
  have "run_nodes env limit n inputs (world0\<lparr>calls := cs\<rparr>) = (Inr s', w')"
    using assms Pair t n by (simp add: invoke_def)
  from run_nodes_last_event [OF this] show ?thesis .
qed

text \<open>
  C10.  For the same question, collaborators and limit, the execution started without
  the key \<open>retry_count\<close> (\<open>query_simple\<close>) and the one started with \<open>retry_count = 0\<close>
  (\<open>query\<close>) make the same collaborator calls, enter the same nodes and stream the same
  events; they end in the same exception, or in final states that differ at most in
  \<open>retry_count\<close> being absent instead of 0; and both entry points return the same answer
  or raise the same exception.  The reason is local: no node and no branch predicate
  tells a state without the key from the state with the key set to the value read.
\<close>

theorem query_simple_equals_query:
  "snd (invoke env limit (query_inputs q)) = snd (invoke env limit (query_simple_inputs q))
   \<and> fst (invoke env limit (query_inputs q))
       = map_sum id retry_count_defaulted (fst (invoke env limit (query_simple_inputs q)))
   \<and> query_simple env limit q = query env limit q
   \<and> node_fn env n (retry_count_defaulted s) cs = node_fn env n s cs
   \<and> next_node env n (retry_count_defaulted s) cs = next_node env n s cs"
proof -
  have inv: "invoke env limit (query_inputs q) =
     (map_sum id retry_count_defaulted (fst (invoke env limit (query_simple_inputs q))),
      snd (invoke env limit (query_simple_inputs q)))"
    unfolding query_inputs_defaulted by (rule invoke_defaulted)
  have q: "query_simple env limit q = query env limit q"
  proof (cases "invoke env limit (query_simple_inputs q)")
    case (Pair r w)
    show ?thesis
    proof (cases r)
      case (Inl e)
      with Pair inv show ?thesis by (simp add: query_def query_simple_def split: sum.split)
    next
      case (Inr s')
      from invoke_last_event [of env limit "query_simple_inputs q" s' w] Pair Inr
      have "events w \<noteq> []" "u_generation (snd (last (events w))) = generation s'"
        by simp_all
      with Pair Inr inv show ?thesis
        by (simp add: query_def query_simple_def split: sum.split)
    qed
  qed
  from inv q show ?thesis by (simp add: node_fn_defaulted next_node_defaulted)
qed

theorem query_simple_equals_query_witness:
  "query (scripted_env ''web_search'' ''yes'' ''yes'' ''yes'') 25 ''why'' = Inr ''an answer''
   \<and> query_simple (scripted_env ''web_search'' ''yes'' ''yes'' ''yes'') 25 ''why''
       = Inr ''an answer''"
proof -
  have q: "query (scripted_env ''web_search'' ''yes'' ''yes'' ''yes'') 25 ''why''
      = Inr ''an answer''"
    by (simp add: eval_nat_numeral query_def validate_def falsy_def run_defs bind_exn_def)
  from query_simple_equals_query [of "scripted_env ''web_search'' ''yes'' ''yes'' ''yes''" 25
      "''why''"] q
  show ?thesis by simp
qed

end
